theory Spec2Isabelle
  imports Complex_Main
begin

section \<open>Data model: the Prisma tables and the DTOs of \<^verbatim>\<open>types/api\<close>\<close>

text \<open>
  The service layer talks to four tables through the Prisma client: books, users, orders
  and order items. A table is a list of rows. Identifiers are strings. Columns that no
  service function reads for a decision (timestamps, the surrogate key of an order item)
  are left out. \<^verbatim>\<open>price\<close>, \<^verbatim>\<open>unitPrice\<close>, \<^verbatim>\<open>subtotal\<close> and
  \<^verbatim>\<open>totalPrice\<close> are JavaScript numbers: finite doubles, each read as the real it
  denotes; the operations on them are not those of the reals (see \<open>Env\<close> below).
  \<^verbatim>\<open>stockQuantity\<close> and \<^verbatim>\<open>quantity\<close> are integer columns, read as unbounded
  integers.
\<close>

datatype UserRole = ADMIN | CUSTOMER

datatype OrderStatus = PENDING | SHIPPED | DELIVERED | CANCELLED

text \<open>
  Modelled from the spec: the enum \<^verbatim>\<open>PaymentStatus\<close> is declared in the Prisma schema,
  which is not among the sources; the spec lists PENDING and PAID, and the service only
  ever writes PENDING.
\<close>

datatype PaymentStatus = PaymentStatus_PENDING | PaymentStatus_PAID

record CreateOrderItemDTO =
  bookId :: string
  quantity :: int

text \<open>The object literal that \<^verbatim>\<open>createOrder\<close> pushes for each validated line.\<close>

record OrderItemData = CreateOrderItemDTO +
  unitPrice :: real
  subtotal :: real

record OrderItem = OrderItemData +
  orderId :: string

record CreateOrderDTO =
  items :: "CreateOrderItemDTO list"

record CreateBookDTO =
  title :: string
  authors :: "string list"
  genre :: string
  isbn :: string
  price :: real
  description :: "string option"
  stockQuantity :: int
  imageUrl :: "string option"

record Book = CreateBookDTO +
  bid :: string

record UpdateBookDTO =
  upd_title :: "string option"
  upd_authors :: "string list option"
  upd_genre :: "string option"
  upd_isbn :: "string option"
  upd_price :: "real option"
  upd_description :: "string option"
  upd_stockQuantity :: "int option"
  upd_imageUrl :: "string option"

record CreateUserDTO =
  name :: string
  email :: string
  password :: string

record User = CreateUserDTO +
  uid :: string
  role :: UserRole

record Order =
  oid :: string
  userId :: string
  totalPrice :: real
  orderStatus :: OrderStatus
  paymentStatus :: PaymentStatus

record UpdateOrderStatusDTO =
  status :: OrderStatus

record DB =
  books :: "Book list"
  users :: "User list"
  orders :: "Order list"
  orderItems :: "OrderItem list"

text \<open>A thrown \<^verbatim>\<open>Error(message)\<close>. The route handlers classify errors by their message.\<close>

datatype error = Error (message: string)

type_synonym 'a result = "DB \<times> (error + 'a)"

text \<open>
  What the sources use and do not define. The arithmetic of JavaScript numbers:
  \<^verbatim>\<open>*\<close> and \<^verbatim>\<open>+\<close> are the IEEE-754 double operations, which round, so that
  \<^verbatim>\<open>+\<close> is not associative; a stored number is a finite double, read as the real it
  denotes, and the two operations are parameters of which nothing is assumed. And the
  library functions: the email pattern of the register route,
  \<^verbatim>\<open>toLowerCase().trim()\<close>, the bcrypt hash and the JWT signer.
\<close>

record Env =
  num_times :: "real \<Rightarrow> real \<Rightarrow> real"
  num_plus :: "real \<Rightarrow> real \<Rightarrow> real"
  emailRegex_test :: "string \<Rightarrow> bool"
  toLowerCase_trim :: "string \<Rightarrow> string"
  hashPassword :: "string \<Rightarrow> string"
  generateToken :: "string \<Rightarrow> string \<Rightarrow> UserRole \<Rightarrow> string"

section \<open>The Prisma client calls the services make\<close>

text \<open>
  The services reach the database through the Prisma client, a library. Each call is
  modelled by what the library documents for it: \<^verbatim>\<open>findUnique\<close> returns the row or null,
  \<^verbatim>\<open>update\<close> and \<^verbatim>\<open>delete\<close> throw when the row is missing, a write that breaks a
  unique column or a relation throws, and \<^verbatim>\<open>$transaction\<close> rolls back when its callback
  throws. A call takes the store and returns the new store with its result or the error
  thrown. Requests are taken one at a time, except where a step relation says otherwise.
\<close>

definition book_findUnique :: "DB \<Rightarrow> string \<Rightarrow> Book option" where
  "book_findUnique db k = find (\<lambda>b. bid b = k) (books db)"

definition book_findUnique_isbn :: "DB \<Rightarrow> string \<Rightarrow> Book option" where
  "book_findUnique_isbn db i = find (\<lambda>b. isbn b = i) (books db)"

text \<open>
  \<^verbatim>\<open>book.update({where: {id}, data})\<close>: Prisma throws when no row has the id, and
  otherwise rewrites the row. The update itself carries no condition on the old row.
\<close>

definition book_update :: "string \<Rightarrow> (Book \<Rightarrow> Book) \<Rightarrow> DB \<Rightarrow> unit result" where
  "book_update k f db =
     (case book_findUnique db k of
        None \<Rightarrow> (db, Inl (Error ''Record to update not found.''))
      | Some _ \<Rightarrow> (db\<lparr>books := map (\<lambda>b. if bid b = k then f b else b) (books db)\<rparr>, Inr ()))"

definition decrement :: "int \<Rightarrow> Book \<Rightarrow> Book" where
  "decrement q b = b\<lparr>stockQuantity := stockQuantity b - q\<rparr>"

definition increment :: "int \<Rightarrow> Book \<Rightarrow> Book" where
  "increment q b = b\<lparr>stockQuantity := stockQuantity b + q\<rparr>"

definition order_findUnique :: "DB \<Rightarrow> string \<Rightarrow> Order option" where
  "order_findUnique db k = find (\<lambda>r. oid r = k) (orders db)"

definition orderItem_findMany :: "DB \<Rightarrow> string \<Rightarrow> OrderItem list" where
  "orderItem_findMany db k = filter (\<lambda>it. orderId it = k) (orderItems db)"

definition orderItem_count :: "DB \<Rightarrow> string \<Rightarrow> nat" where
  "orderItem_count db k = length (filter (\<lambda>it. bookId it = k) (orderItems db))"

text \<open>
  \<^verbatim>\<open>$transaction(callback)\<close>: the callback runs against the store; when it throws, every
  write it made is rolled back and the error is rethrown. The callback is a state
  transformer that also returns the state it had reached when it failed, so that the
  rollback is a step of the model.
\<close>

definition transaction :: "(DB \<Rightarrow> 'a result) \<Rightarrow> DB \<Rightarrow> 'a result" where
  "transaction body db =
     (case body db of
        (db', Inl e) \<Rightarrow> (db, Inl e)
      | (db', Inr r) \<Rightarrow> (db', Inr r))"


definition book_create :: "string \<Rightarrow> CreateBookDTO \<Rightarrow> DB \<Rightarrow> Book result" where
  \<comment> \<open>\<open>newId\<close> is the identifier the store generates for the row; \<open>id\<close> and \<open>isbn\<close> are unique columns.\<close>
  "book_create newId dto db =
     (if book_findUnique db newId \<noteq> None \<or> book_findUnique_isbn db (isbn dto) \<noteq> None
      then (db, Inl (Error ''Unique constraint failed''))
      else let b = \<lparr>title = title dto, authors = authors dto, genre = genre dto, isbn = isbn dto,
                      price = price dto, description = description dto,
                      stockQuantity = stockQuantity dto, imageUrl = imageUrl dto, bid = newId\<rparr>
           in (db\<lparr>books := books db @ [b]\<rparr>, Inr b))"

definition book_update_data :: "string \<Rightarrow> (Book \<Rightarrow> Book) \<Rightarrow> DB \<Rightarrow> Book result" where
  \<comment> \<open>\<^verbatim>\<open>book.update\<close> with plain column values; the new \<open>isbn\<close> must stay unique.\<close>
  "book_update_data k f db =
     (case book_findUnique db k of
        None \<Rightarrow> (db, Inl (Error ''Record to update not found.''))
      | Some b \<Rightarrow>
          if find (\<lambda>b'. bid b' \<noteq> k \<and> isbn b' = isbn (f b)) (books db) \<noteq> None
          then (db, Inl (Error ''Unique constraint failed''))
          else (db\<lparr>books := map (\<lambda>b. if bid b = k then f b else b) (books db)\<rparr>, Inr (f b)))"

definition book_delete :: "string \<Rightarrow> DB \<Rightarrow> unit result" where
  "book_delete k db =
     (case book_findUnique db k of
        None \<Rightarrow> (db, Inl (Error ''Record to delete does not exist.''))
      | Some _ \<Rightarrow> (db\<lparr>books := filter (\<lambda>b. bid b \<noteq> k) (books db)\<rparr>, Inr ()))"

definition order_update :: "string \<Rightarrow> (Order \<Rightarrow> Order) \<Rightarrow> DB \<Rightarrow> (Order \<times> OrderItem list) result" where
  \<comment> \<open>\<^verbatim>\<open>order.update\<close> with \<^verbatim>\<open>include: {orderItems}\<close>: the updated row and its line items.\<close>
  "order_update k f db =
     (case order_findUnique db k of
        None \<Rightarrow> (db, Inl (Error ''Record to update not found.''))
      | Some r \<Rightarrow>
          (db\<lparr>orders := map (\<lambda>r. if oid r = k then f r else r) (orders db)\<rparr>,
           Inr (f r, orderItem_findMany db k)))"

definition order_create ::
  "string \<Rightarrow> string \<Rightarrow> real \<Rightarrow> OrderItemData list \<Rightarrow> DB \<Rightarrow> (Order \<times> OrderItem list) result" where
  \<comment> \<open>\<^verbatim>\<open>order.create\<close> with nested \<^verbatim>\<open>orderItems: {create: ...}\<close>. \<open>newId\<close> is the generated
      identifier. The order's \<open>userId\<close> and each item's \<open>bookId\<close> are relations: the referenced
      rows must exist.\<close>
  "order_create newId u tot its db =
     (if order_findUnique db newId \<noteq> None
      then (db, Inl (Error ''Unique constraint failed''))
      else if find (\<lambda>x. uid x = u) (users db) = None
              \<or> find (\<lambda>it. book_findUnique db (bookId it) = None) its \<noteq> None
      then (db, Inl (Error ''Foreign key constraint failed''))
      else let r = \<lparr>oid = newId, userId = u, totalPrice = tot,
                      orderStatus = PENDING, paymentStatus = PaymentStatus_PENDING\<rparr>;
               rows = map (\<lambda>it. \<lparr>bookId = bookId it, quantity = quantity it,
                                  unitPrice = unitPrice it, subtotal = subtotal it,
                                  orderId = newId\<rparr>) its
           in (db\<lparr>orders := orders db @ [r], orderItems := orderItems db @ rows\<rparr>, Inr (r, rows)))"

section \<open>Book service\<close>

definition getBookById :: "DB \<Rightarrow> string \<Rightarrow> Book option" where
  "getBookById db k = book_findUnique db k"

definition createBook :: "string \<Rightarrow> CreateBookDTO \<Rightarrow> DB \<Rightarrow> Book result" where
  "createBook newId dto db =
     (case book_findUnique_isbn db (isbn dto) of
        Some _ \<Rightarrow> (db, Inl (Error ''A book with this ISBN already exists''))
      | None \<Rightarrow> book_create newId dto db)"

definition updateData :: "UpdateBookDTO \<Rightarrow> Book \<Rightarrow> Book" where
  \<comment> \<open>The \<^verbatim>\<open>updateData\<close> object: a column is written exactly when the DTO defines it.\<close>
  "updateData dto b =
     b\<lparr>title := (case upd_title dto of None \<Rightarrow> title b | Some v \<Rightarrow> v),
       authors := (case upd_authors dto of None \<Rightarrow> authors b | Some v \<Rightarrow> v),
       genre := (case upd_genre dto of None \<Rightarrow> genre b | Some v \<Rightarrow> v),
       isbn := (case upd_isbn dto of None \<Rightarrow> isbn b | Some v \<Rightarrow> v),
       price := (case upd_price dto of None \<Rightarrow> price b | Some v \<Rightarrow> v),
       description := (case upd_description dto of None \<Rightarrow> description b | Some v \<Rightarrow> Some v),
       stockQuantity := (case upd_stockQuantity dto of None \<Rightarrow> stockQuantity b | Some v \<Rightarrow> v),
       imageUrl := (case upd_imageUrl dto of None \<Rightarrow> imageUrl b | Some v \<Rightarrow> Some v)\<rparr>"

definition updateBook :: "string \<Rightarrow> UpdateBookDTO \<Rightarrow> DB \<Rightarrow> Book result" where
  "updateBook k dto db =
     (case book_findUnique db k of
        None \<Rightarrow> (db, Inl (Error ''Book not found''))
      | Some existingBook \<Rightarrow>
          if (case upd_isbn dto of
                None \<Rightarrow> False
              | Some i \<Rightarrow> i \<noteq> [] \<and> i \<noteq> isbn existingBook \<and> book_findUnique_isbn db i \<noteq> None)
          then (db, Inl (Error ''A book with this ISBN already exists''))
          else book_update_data k (updateData dto) db)"

definition deleteBook :: "string \<Rightarrow> DB \<Rightarrow> unit result" where
  "deleteBook k db =
     (case book_findUnique db k of
        None \<Rightarrow> (db, Inl (Error ''Book not found''))
      | Some _ \<Rightarrow>
          if orderItem_count db k > 0
          then (db, Inl (Error ''Cannot delete book that is referenced in orders''))
          else book_delete k db)"

definition checkStockAvailability :: "DB \<Rightarrow> string \<Rightarrow> int \<Rightarrow> error + bool" where
  "checkStockAvailability db k q =
     (case book_findUnique db k of
        None \<Rightarrow> Inl (Error ''Book not found'')
      | Some book \<Rightarrow> Inr (stockQuantity book \<ge> q))"

definition decrementStock :: "string \<Rightarrow> int \<Rightarrow> DB \<Rightarrow> unit result" where
  "decrementStock k q db =
     (case book_findUnique db k of
        None \<Rightarrow> (db, Inl (Error ''Book not found''))
      | Some book \<Rightarrow>
          if stockQuantity book < q then (db, Inl (Error ''Insufficient stock''))
          else book_update k (decrement q) db)"

text \<open>
  \<^verbatim>\<open>decrementStock\<close> awaits two store calls in turn: the \<^verbatim>\<open>findUnique\<close> and the
  \<^verbatim>\<open>update\<close>. Between two awaits another request may run. The control points of one
  call, and the step it takes from each:
\<close>

datatype decrementStock_pc =
    AtFindUnique string int
  | AtUpdate string int
  | Returned
  | Thrown error

fun decrementStock_step :: "decrementStock_pc \<Rightarrow> DB \<Rightarrow> DB \<times> decrementStock_pc" where
  "decrementStock_step (AtFindUnique k q) db =
     (case book_findUnique db k of
        None \<Rightarrow> (db, Thrown (Error ''Book not found''))
      | Some book \<Rightarrow>
          if stockQuantity book < q then (db, Thrown (Error ''Insufficient stock''))
          else (db, AtUpdate k q))"
| "decrementStock_step (AtUpdate k q) db =
     (case book_update k (decrement q) db of
        (db', Inl e) \<Rightarrow> (db', Thrown e)
      | (db', Inr _) \<Rightarrow> (db', Returned))"
| "decrementStock_step Returned db = (db, Returned)"
| "decrementStock_step (Thrown e) db = (db, Thrown e)"

text \<open>Two calls in flight; the schedule says which of them takes the next step.\<close>

datatype caller = First | Second

fun interleave ::
  "caller list \<Rightarrow> DB \<times> decrementStock_pc \<times> decrementStock_pc \<Rightarrow> DB \<times> decrementStock_pc \<times> decrementStock_pc" where
  "interleave [] s = s"
| "interleave (First # sched) (db, p1, p2) =
     (case decrementStock_step p1 db of (db', p1') \<Rightarrow> interleave sched (db', p1', p2))"
| "interleave (Second # sched) (db, p1, p2) =
     (case decrementStock_step p2 db of (db', p2') \<Rightarrow> interleave sched (db', p1, p2'))"

definition stockOf :: "DB \<Rightarrow> string \<Rightarrow> int option" where
  "stockOf db k = map_option stockQuantity (book_findUnique db k)"


section \<open>Order service\<close>

text \<open>Template literals print an integer in decimal.\<close>

fun show_nat :: "nat \<Rightarrow> string" where
  "show_nat n =
     (if n < 10 then [''0123456789'' ! n]
      else show_nat (n div 10) @ [''0123456789'' ! (n mod 10)])"

definition show_int :: "int \<Rightarrow> string" where
  "show_int i = (if i < 0 then ''-'' @ show_nat (nat (- i)) else show_nat (nat i))"

definition insufficient_message :: "string \<Rightarrow> int \<Rightarrow> int \<Rightarrow> string" where
  "insufficient_message t available requested =
     ''Insufficient stock for book '' @ [CHR 0x22] @ t @ [CHR 0x22]
       @ ''. Available: '' @ show_int available @ '', Requested: '' @ show_int requested"

definition stock_validation_failed :: string where
  "stock_validation_failed = ''Stock validation failed during order processing. Please try again.''"

text \<open>The first loop of \<^verbatim>\<open>createOrder\<close>, with its accumulators \<^verbatim>\<open>orderItems\<close> and \<^verbatim>\<open>totalPrice\<close>.\<close>

fun createOrder_validate ::
  "Env \<Rightarrow> DB \<Rightarrow> CreateOrderItemDTO list \<Rightarrow> OrderItemData list \<Rightarrow> real
     \<Rightarrow> error + (OrderItemData list \<times> real)" where
  "createOrder_validate env db [] orderItems' totalPrice' = Inr (orderItems', totalPrice')"
| "createOrder_validate env db (item # rest) orderItems' totalPrice' =
     (if bookId item = [] \<or> quantity item \<le> 0 then Inl (Error ''Invalid order item'')
      else case getBookById db (bookId item) of
        None \<Rightarrow> Inl (Error (''Book with ID '' @ bookId item @ '' not found''))
      | Some book \<Rightarrow>
          (case checkStockAvailability db (bookId item) (quantity item) of
             Inl e \<Rightarrow> Inl e
           | Inr isAvailable \<Rightarrow>
               if \<not> isAvailable
               then Inl (Error (insufficient_message (title book) (stockQuantity book) (quantity item)))
               else let subtotal' = num_times env (price book) (real_of_int (quantity item))
                    in createOrder_validate env db rest
                         (orderItems' @ [\<lparr>bookId = bookId item, quantity = quantity item,
                                           unitPrice = price book, subtotal = subtotal'\<rparr>])
                         (num_plus env totalPrice' subtotal')))"

text \<open>The loop inside the transaction: read the row, compare, then write the decrement.\<close>

fun createOrder_decrementAll :: "OrderItemData list \<Rightarrow> DB \<Rightarrow> unit result" where
  "createOrder_decrementAll [] tx = (tx, Inr ())"
| "createOrder_decrementAll (item # rest) tx =
     (case book_findUnique tx (bookId item) of
        None \<Rightarrow> (tx, Inl (Error stock_validation_failed))
      | Some book \<Rightarrow>
          if stockQuantity book < quantity item then (tx, Inl (Error stock_validation_failed))
          else (case book_update (bookId item) (decrement (quantity item)) tx of
                  (tx', Inl e) \<Rightarrow> (tx', Inl e)
                | (tx', Inr _) \<Rightarrow> createOrder_decrementAll rest tx'))"

definition createOrder_tx ::
  "string \<Rightarrow> string \<Rightarrow> OrderItemData list \<Rightarrow> real \<Rightarrow> DB \<Rightarrow> (Order \<times> OrderItem list) result" where
  "createOrder_tx userId' newId orderItems' totalPrice' tx =
     (case createOrder_decrementAll orderItems' tx of
        (tx', Inl e) \<Rightarrow> (tx', Inl e)
      | (tx', Inr _) \<Rightarrow> order_create newId userId' totalPrice' orderItems' tx')"

definition createOrder ::
  "Env \<Rightarrow> string \<Rightarrow> string \<Rightarrow> CreateOrderDTO \<Rightarrow> DB \<Rightarrow> (Order \<times> OrderItem list) result" where
  \<comment> \<open>\<open>newId\<close>: the identifier the store generates for the new order.\<close>
  "createOrder env userId' newId dto db =
     (if items dto = [] then (db, Inl (Error ''Order must contain at least one item''))
      else case createOrder_validate env db (items dto) [] 0 of
        Inl e \<Rightarrow> (db, Inl e)
      | Inr (orderItems', totalPrice') \<Rightarrow>
          transaction (createOrder_tx userId' newId orderItems' totalPrice') db)"

definition updateOrderStatus ::
  "string \<Rightarrow> UpdateOrderStatusDTO \<Rightarrow> DB \<Rightarrow> (Order \<times> OrderItem list) result" where
  "updateOrderStatus k dto db =
     (case order_findUnique db k of
        None \<Rightarrow> (db, Inl (Error ''Order not found''))
      | Some existingOrder \<Rightarrow> order_update k (\<lambda>r. r\<lparr>orderStatus := status dto\<rparr>) db)"

fun cancelOrder_restoreAll :: "OrderItem list \<Rightarrow> DB \<Rightarrow> unit result" where
  "cancelOrder_restoreAll [] tx = (tx, Inr ())"
| "cancelOrder_restoreAll (item # rest) tx =
     (case book_update (bookId item) (increment (quantity item)) tx of
        (tx', Inl e) \<Rightarrow> (tx', Inl e)
      | (tx', Inr _) \<Rightarrow> cancelOrder_restoreAll rest tx')"

definition cancelOrder_tx :: "string \<Rightarrow> DB \<Rightarrow> (Order \<times> OrderItem list) result" where
  "cancelOrder_tx orderId' tx =
     (case cancelOrder_restoreAll (orderItem_findMany tx orderId') tx of
        (tx', Inl e) \<Rightarrow> (tx', Inl e)
      | (tx', Inr _) \<Rightarrow> order_update orderId' (\<lambda>r. r\<lparr>orderStatus := CANCELLED\<rparr>) tx')"

definition cancelOrder :: "string \<Rightarrow> string \<Rightarrow> DB \<Rightarrow> (Order \<times> OrderItem list) result" where
  "cancelOrder orderId' userId' db =
     (case order_findUnique db orderId' of
        None \<Rightarrow> (db, Inl (Error ''Order not found''))
      | Some existingOrder \<Rightarrow>
          if userId existingOrder \<noteq> userId' then (db, Inl (Error ''You can only cancel your own orders''))
          else if orderStatus existingOrder \<noteq> PENDING
          then (db, Inl (Error ''Only pending orders can be cancelled''))
          else transaction (cancelOrder_tx orderId') db)"

text \<open>The quantity an item list asks of book \<open>k\<close>, over all its lines.\<close>

definition requested :: "('a CreateOrderItemDTO_scheme) list \<Rightarrow> string \<Rightarrow> int" where
  "requested its k = sum_list (map quantity (filter (\<lambda>it. bookId it = k) its))"


section \<open>Order placement, one store call at a time\<close>

text \<open>
  \<^verbatim>\<open>createOrder\<close> awaits a store call twice per line of the first loop
  (\<^verbatim>\<open>getBookById\<close>, then \<^verbatim>\<open>checkStockAvailability\<close>) and then awaits the transaction.
  Between two awaits another request may run. The control points of one call are the
  awaits it is about to make; a step makes that store call and runs on to the next await.
  The transaction is one step: the store runs it in isolation, whole or not at all.
\<close>

datatype createOrder_pc =
    AtGetBookById CreateOrderItemDTO "CreateOrderItemDTO list" "OrderItemData list" real
  | AtCheckStock Book CreateOrderItemDTO "CreateOrderItemDTO list" "OrderItemData list" real
  | AtTransaction "OrderItemData list" real
  | Resolved "Order \<times> OrderItem list"
  | Rejected error

definition createOrder_loop ::
  "CreateOrderItemDTO list \<Rightarrow> OrderItemData list \<Rightarrow> real \<Rightarrow> createOrder_pc" where
  "createOrder_loop its orderItems' totalPrice' =
     (case its of
        [] \<Rightarrow> AtTransaction orderItems' totalPrice'
      | item # rest \<Rightarrow>
          if bookId item = [] \<or> quantity item \<le> 0 then Rejected (Error ''Invalid order item'')
          else AtGetBookById item rest orderItems' totalPrice')"

definition createOrder_start :: "CreateOrderDTO \<Rightarrow> createOrder_pc" where
  "createOrder_start dto =
     (if items dto = [] then Rejected (Error ''Order must contain at least one item'')
      else createOrder_loop (items dto) [] 0)"

fun createOrder_step ::
  "Env \<Rightarrow> string \<Rightarrow> string \<Rightarrow> createOrder_pc \<Rightarrow> DB \<Rightarrow> DB \<times> createOrder_pc" where
  "createOrder_step env userId' newId (AtGetBookById item rest orderItems' totalPrice') db =
     (case getBookById db (bookId item) of
        None \<Rightarrow> (db, Rejected (Error (''Book with ID '' @ bookId item @ '' not found'')))
      | Some book \<Rightarrow> (db, AtCheckStock book item rest orderItems' totalPrice'))"
| "createOrder_step env userId' newId (AtCheckStock book item rest orderItems' totalPrice') db =
     (case checkStockAvailability db (bookId item) (quantity item) of
        Inl e \<Rightarrow> (db, Rejected e)
      | Inr isAvailable \<Rightarrow>
          if \<not> isAvailable
          then (db, Rejected (Error (insufficient_message (title book) (stockQuantity book) (quantity item))))
          else let subtotal' = num_times env (price book) (real_of_int (quantity item))
               in (db, createOrder_loop rest
                         (orderItems' @ [\<lparr>bookId = bookId item, quantity = quantity item,
                                           unitPrice = price book, subtotal = subtotal'\<rparr>])
                         (num_plus env totalPrice' subtotal')))"
| "createOrder_step env userId' newId (AtTransaction orderItems' totalPrice') db =
     (case transaction (createOrder_tx userId' newId orderItems' totalPrice') db of
        (db', Inl e) \<Rightarrow> (db', Rejected e)
      | (db', Inr r) \<Rightarrow> (db', Resolved r))"
| "createOrder_step env userId' newId (Resolved r) db = (db, Resolved r)"
| "createOrder_step env userId' newId (Rejected e) db = (db, Rejected e)"

text \<open>A call run on its own for a number of steps.\<close>

fun createOrder_steps ::
  "nat \<Rightarrow> Env \<Rightarrow> string \<Rightarrow> string \<Rightarrow> createOrder_pc \<Rightarrow> DB \<Rightarrow> DB \<times> createOrder_pc" where
  "createOrder_steps 0 env u n pc db = (db, pc)"
| "createOrder_steps (Suc m) env u n pc db =
     (case createOrder_step env u n pc db of (db', pc') \<Rightarrow> createOrder_steps m env u n pc' db')"

fun settled :: "createOrder_pc \<Rightarrow> bool" where
  "settled (Resolved r) = True"
| "settled (Rejected e) = True"
| "settled _ = False"






section \<open>Auth service\<close>

record AuthResponse =
  token :: string
  tokenType :: string
  expiresIn :: nat
  user_id :: string
  user_name :: string
  user_email :: string
  user_role :: UserRole

definition user_findUnique_email :: "DB \<Rightarrow> string \<Rightarrow> User option" where
  "user_findUnique_email db e = find (\<lambda>u. email u = e) (users db)"

definition user_create :: "string \<Rightarrow> CreateUserDTO \<Rightarrow> UserRole \<Rightarrow> DB \<Rightarrow> User result" where
  \<comment> \<open>\<^verbatim>\<open>user.create\<close>; \<open>id\<close> and \<open>email\<close> are unique columns.\<close>
  "user_create newId d r db =
     (if find (\<lambda>u. uid u = newId) (users db) \<noteq> None \<or> user_findUnique_email db (email d) \<noteq> None
      then (db, Inl (Error ''Unique constraint failed''))
      else let u = \<lparr>name = name d, email = email d, password = password d, uid = newId, role = r\<rparr>
           in (db\<lparr>users := users db @ [u]\<rparr>, Inr u))"

definition getTokenExpiresIn :: nat where
  "getTokenExpiresIn = 7 * 24 * 60 * 60"

definition registerUser :: "Env \<Rightarrow> string \<Rightarrow> CreateUserDTO \<Rightarrow> DB \<Rightarrow> AuthResponse result" where
  "registerUser env newId dto db =
     (case user_findUnique_email db (email dto) of
        Some _ \<Rightarrow> (db, Inl (Error ''Email already registered''))
      | None \<Rightarrow>
          let hashedPassword = hashPassword env (password dto)
          in (case user_create newId \<lparr>name = name dto, email = email dto, password = hashedPassword\<rparr>
                     CUSTOMER db of
                (db', Inl e) \<Rightarrow> (db', Inl e)
              | (db', Inr prismaUser) \<Rightarrow>
                  (db', Inr \<lparr>token = generateToken env (uid prismaUser) (email prismaUser) (role prismaUser),
                             tokenType = ''Bearer'',
                             expiresIn = getTokenExpiresIn,
                             user_id = uid prismaUser, user_name = name prismaUser,
                             user_email = email prismaUser, user_role = role prismaUser\<rparr>)))"

section \<open>Authorization\<close>

record AuthenticatedUser =
  auth_userId :: string
  auth_email :: string
  auth_role :: UserRole

definition isAdmin :: "AuthenticatedUser \<Rightarrow> bool" where
  "isAdmin u = (auth_role u = ADMIN)"

section \<open>Route handlers\<close>

text \<open>
  A handler answers with a JSON value and a status, or with the error envelope
  \<^verbatim>\<open>{timestamp, status, error, message, path}\<close>, of which the status, the error label
  and the message are kept. \<^verbatim>\<open>getAuthenticatedUser\<close> is the handler's first argument:
  \<open>None\<close> when the request carries no valid credentials.
\<close>

datatype 'a response = Json nat 'a | ErrorJson nat string string

fun status_of :: "'a response \<Rightarrow> nat" where
  "status_of (Json n _) = n"
| "status_of (ErrorJson n _ _) = n"

text \<open>\<^verbatim>\<open>String.prototype.includes\<close>.\<close>

fun str_includes :: "string \<Rightarrow> string \<Rightarrow> bool" where
  "str_includes [] p = (p = [])"
| "str_includes (c # cs) p = (take (length p) (c # cs) = p \<or> str_includes cs p)"

definition message_or :: "error \<Rightarrow> string \<Rightarrow> string" where
  \<comment> \<open>\<^verbatim>\<open>error.message || fallback\<close>\<close>
  "message_or e fallback = (if message e = [] then fallback else message e)"

text \<open>
  A numeric field of a JSON body after \<^verbatim>\<open>parseInt\<close> or \<^verbatim>\<open>parseFloat\<close>: the field is
  absent, or it is present and does not parse (NaN), or it parses to a value.
\<close>

datatype 'a field = Missing | NaN | Val 'a

record RegisterBody =
  body_name :: string
  body_email :: string
  body_password :: string
  body_role :: "string option"

definition register_POST :: "Env \<Rightarrow> RegisterBody \<Rightarrow> string \<Rightarrow> DB \<Rightarrow> DB \<times> AuthResponse response" where
  \<comment> \<open>An absent string field and an empty one are both falsy. \<open>body_role\<close> stands for
      a field the handler never reads.\<close>
  "register_POST env body newId db =
     (if body_name body = [] \<or> body_email body = [] \<or> body_password body = []
      then (db, ErrorJson 400 ''Bad Request'' ''Missing required fields: name, email, password'')
      else if \<not> emailRegex_test env (body_email body)
      then (db, ErrorJson 400 ''Bad Request'' ''Invalid email format'')
      else if length (body_password body) < 6
      then (db, ErrorJson 400 ''Bad Request'' ''Password must be at least 6 characters long'')
      else let dto = \<lparr>name = body_name body, email = toLowerCase_trim env (body_email body),
                        password = body_password body\<rparr>
           in (case registerUser env newId dto db of
                 (db', Inr authResponse) \<Rightarrow> (db', Json 201 authResponse)
               | (db', Inl e) \<Rightarrow>
                   let m = message_or e ''Failed to register user''
                   in if str_includes m ''already registered'' then (db', ErrorJson 409 ''Conflict'' m)
                      else (db', ErrorJson 500 ''Internal Server Error'' m)))"

record BookBody =
  body_title :: string
  body_authors :: "string list option"
  body_genre :: string
  body_isbn :: string
  body_price :: "real field"
  body_description :: "string option"
  body_stockQuantity :: "int field"
  body_imageUrl :: "string option"

definition books_error :: "error \<Rightarrow> 'a response" where
  "books_error e =
     (let m = message_or e ''Failed to create book''
      in if str_includes m ''already exists'' then ErrorJson 409 ''Conflict'' m
         else ErrorJson 500 ''Internal Server Error'' m)"

definition field_value :: "'a field \<Rightarrow> 'a \<Rightarrow> 'a" where
  "field_value f d = (case f of Val v \<Rightarrow> v | _ \<Rightarrow> d)"

definition books_POST :: "AuthenticatedUser option \<Rightarrow> BookBody \<Rightarrow> string \<Rightarrow> DB \<Rightarrow> DB \<times> Book response" where
  \<comment> \<open>When a numeric field is NaN the comparisons with 0 are false, the service runs its
      own checks, and the store refuses the NaN column at the write.\<close>
  "books_POST user body newId db =
     (case user of
        None \<Rightarrow> (db, ErrorJson 401 ''Unauthorized'' ''Authentication required'')
      | Some u \<Rightarrow>
          if \<not> isAdmin u then (db, ErrorJson 403 ''Forbidden'' ''Admin access required'')
          else if body_title body = [] \<or> body_authors body = None \<or> body_genre body = []
                  \<or> body_isbn body = [] \<or> body_price body = Missing \<or> body_price body = Val 0
                  \<or> body_stockQuantity body = Missing
          then (db, ErrorJson 400 ''Bad Request''
                 ''Missing required fields: title, authors, genre, isbn, price, stockQuantity'')
          else let dto = \<lparr>title = body_title body, authors = the (body_authors body),
                          genre = body_genre body, isbn = body_isbn body,
                          price = field_value (body_price body) 0,
                          description = body_description body,
                          stockQuantity = field_value (body_stockQuantity body) 0,
                          imageUrl = body_imageUrl body\<rparr>
               in if (case body_price body of Val p \<Rightarrow> p < 0 | _ \<Rightarrow> False)
                  then (db, ErrorJson 400 ''Bad Request'' ''Price must be non-negative'')
                  else if (case body_stockQuantity body of Val s \<Rightarrow> s < 0 | _ \<Rightarrow> False)
                  then (db, ErrorJson 400 ''Bad Request'' ''Stock quantity must be non-negative'')
                  else if body_price body = NaN \<or> body_stockQuantity body = NaN
                  then (case createBook newId dto db of
                          (_, Inl e) \<Rightarrow> (db, books_error e)
                        | (_, Inr _) \<Rightarrow> (db, books_error (Error ''Invalid value provided'')))
                  else (case createBook newId dto db of
                          (db', Inr book) \<Rightarrow> (db', Json 201 book)
                        | (db', Inl e) \<Rightarrow> (db', books_error e)))"

record BookUpdateBody =
  put_title :: "string option"
  put_authors :: "string list option"
  put_genre :: "string option"
  put_isbn :: "string option"
  put_price :: "real field"
  put_description :: "string option"
  put_stockQuantity :: "int field"
  put_imageUrl :: "string option"

definition book_error :: "error \<Rightarrow> 'a response" where
  "book_error e =
     (let m = message_or e ''Failed to update book''
      in if str_includes m ''not found'' then ErrorJson 404 ''Not Found'' m
         else if str_includes m ''already exists'' then ErrorJson 409 ''Conflict'' m
         else ErrorJson 500 ''Internal Server Error'' m)"

definition field_option :: "'a field \<Rightarrow> 'a \<Rightarrow> 'a option" where
  "field_option f d = (case f of Missing \<Rightarrow> None | NaN \<Rightarrow> Some d | Val v \<Rightarrow> Some v)"

definition book_PUT ::
  "AuthenticatedUser option \<Rightarrow> string \<Rightarrow> BookUpdateBody \<Rightarrow> DB \<Rightarrow> DB \<times> Book response" where
  "book_PUT user k body db =
     (case user of
        None \<Rightarrow> (db, ErrorJson 401 ''Unauthorized'' ''Authentication required'')
      | Some u \<Rightarrow>
          if \<not> isAdmin u then (db, ErrorJson 403 ''Forbidden'' ''Admin access required'')
          else if put_title body = None \<and> put_authors body = None \<and> put_genre body = None
                  \<and> put_isbn body = None \<and> put_price body = Missing \<and> put_description body = None
                  \<and> put_stockQuantity body = Missing \<and> put_imageUrl body = None
          then (db, ErrorJson 400 ''Bad Request'' ''At least one field must be provided for update'')
          else if (case put_price body of Val p \<Rightarrow> p < 0 | _ \<Rightarrow> False)
          then (db, ErrorJson 400 ''Bad Request'' ''Price must be non-negative'')
          else if (case put_stockQuantity body of Val s \<Rightarrow> s < 0 | _ \<Rightarrow> False)
          then (db, ErrorJson 400 ''Bad Request'' ''Stock quantity must be non-negative'')
          else let dto = \<lparr>upd_title = put_title body, upd_authors = put_authors body,
                          upd_genre = put_genre body, upd_isbn = put_isbn body,
                          upd_price = field_option (put_price body) 0,
                          upd_description = put_description body,
                          upd_stockQuantity = field_option (put_stockQuantity body) 0,
                          upd_imageUrl = put_imageUrl body\<rparr>
               in if put_price body = NaN \<or> put_stockQuantity body = NaN
                  then (case updateBook k dto db of
                          (_, Inl e) \<Rightarrow> (db, book_error e)
                        | (_, Inr _) \<Rightarrow> (db, book_error (Error ''Invalid value provided'')))
                  else (case updateBook k dto db of
                          (db', Inr book) \<Rightarrow> (db', Json 200 book)
                        | (db', Inl e) \<Rightarrow> (db', book_error e)))"

definition book_DELETE :: "AuthenticatedUser option \<Rightarrow> string \<Rightarrow> DB \<Rightarrow> DB \<times> string response" where
  "book_DELETE user k db =
     (case user of
        None \<Rightarrow> (db, ErrorJson 401 ''Unauthorized'' ''Authentication required'')
      | Some u \<Rightarrow>
          if \<not> isAdmin u then (db, ErrorJson 403 ''Forbidden'' ''Admin access required'')
          else (case deleteBook k db of
                  (db', Inr _) \<Rightarrow> (db', Json 200 ''Book deleted successfully'')
                | (db', Inl e) \<Rightarrow>
                    let m = message_or e ''Failed to delete book''
                    in if str_includes m ''not found'' then (db', ErrorJson 404 ''Not Found'' m)
                       else if str_includes m ''referenced in orders'' then (db', ErrorJson 400 ''Bad Request'' m)
                       else (db', ErrorJson 500 ''Internal Server Error'' m)))"

definition orders_error :: "error \<Rightarrow> 'a response" where
  "orders_error e =
     (let m = message_or e ''Failed to create order''
      in if str_includes m ''not found'' then ErrorJson 404 ''Not Found'' m
         else if str_includes m ''Insufficient stock'' then ErrorJson 400 ''Bad Request'' m
         else ErrorJson 500 ''Internal Server Error'' m)"

definition orders_POST ::
  "Env \<Rightarrow> AuthenticatedUser option \<Rightarrow> CreateOrderItemDTO list option \<Rightarrow> string \<Rightarrow> DB
     \<Rightarrow> DB \<times> (Order \<times> OrderItem list) response" where
  \<comment> \<open>The body's \<open>items\<close>: \<open>None\<close> when absent or not an array. An item without a \<open>bookId\<close>
      has the empty one; an item without a \<open>quantity\<close> has 0.\<close>
  "orders_POST env user body_items newId db =
     (case user of
        None \<Rightarrow> (db, ErrorJson 401 ''Unauthorized'' ''Authentication required'')
      | Some u \<Rightarrow>
          (case body_items of
             None \<Rightarrow> (db, ErrorJson 400 ''Bad Request'' ''Order must contain at least one item'')
           | Some its \<Rightarrow>
               if its = [] then (db, ErrorJson 400 ''Bad Request'' ''Order must contain at least one item'')
               else if find (\<lambda>item. bookId item = [] \<or> quantity item \<le> 0) its \<noteq> None
               then (db, ErrorJson 400 ''Bad Request''
                      ''Each item must have bookId and quantity (greater than 0)'')
               else (case createOrder env (auth_userId u) newId \<lparr>items = its\<rparr> db of
                       (db', Inr order) \<Rightarrow> (db', Json 201 order)
                     | (db', Inl e) \<Rightarrow> (db', orders_error e))))"

definition validStatuses :: "(string \<times> OrderStatus) list" where
  "validStatuses = [(''PENDING'', PENDING), (''SHIPPED'', SHIPPED),
                    (''DELIVERED'', DELIVERED), (''CANCELLED'', CANCELLED)]"

definition order_status_PUT ::
  "AuthenticatedUser option \<Rightarrow> string \<Rightarrow> string \<Rightarrow> DB \<Rightarrow> DB \<times> (Order \<times> OrderItem list) response" where
  \<comment> \<open>\<open>body_status\<close>: the body's \<open>status\<close>, empty when absent.\<close>
  "order_status_PUT user k body_status db =
     (case user of
        None \<Rightarrow> (db, ErrorJson 401 ''Unauthorized'' ''Authentication required'')
      | Some u \<Rightarrow>
          if \<not> isAdmin u then (db, ErrorJson 403 ''Forbidden'' ''Admin access required'')
          else if body_status = [] then (db, ErrorJson 400 ''Bad Request'' ''Missing required field: status'')
          else (case map_of validStatuses body_status of
                  None \<Rightarrow> (db, ErrorJson 400 ''Bad Request''
                            ''Invalid status. Valid values: PENDING, SHIPPED, DELIVERED, CANCELLED'')
                | Some st \<Rightarrow>
                    (case updateOrderStatus k \<lparr>status = st\<rparr> db of
                       (db', Inr order) \<Rightarrow> (db', Json 200 order)
                     | (db', Inl e) \<Rightarrow>
                         let m = message_or e ''Failed to update order status''
                         in if str_includes m ''not found'' then (db', ErrorJson 404 ''Not Found'' m)
                            else (db', ErrorJson 500 ''Internal Server Error'' m))))"

section \<open>The system as a whole\<close>

text \<open>
  One request at a time: the six state-changing routes, and the service call
  \<^verbatim>\<open>cancelOrder\<close> (the order route imports it). Fresh identifiers come with the request.
\<close>

datatype request =
    Register RegisterBody string
  | BooksPost "AuthenticatedUser option" BookBody string
  | BookPut "AuthenticatedUser option" string BookUpdateBody
  | BookDelete "AuthenticatedUser option" string
  | OrdersPost "AuthenticatedUser option" "CreateOrderItemDTO list option" string
  | OrderStatusPut "AuthenticatedUser option" string string
  | CancelOrder string string

fun handle :: "Env \<Rightarrow> request \<Rightarrow> DB \<Rightarrow> DB" where
  "handle env (Register body newId) db = fst (register_POST env body newId db)"
| "handle env (BooksPost user body newId) db = fst (books_POST user body newId db)"
| "handle env (BookPut user k body) db = fst (book_PUT user k body db)"
| "handle env (BookDelete user k) db = fst (book_DELETE user k db)"
| "handle env (OrdersPost user its newId) db = fst (orders_POST env user its newId db)"
| "handle env (OrderStatusPut user k st) db = fst (order_status_PUT user k st db)"
| "handle env (CancelOrder k u) db = fst (cancelOrder k u db)"

fun run :: "Env \<Rightarrow> request list \<Rightarrow> DB \<Rightarrow> DB" where
  "run env [] db = db"
| "run env (r # rs) db = run env rs (handle env r db)"

definition emptyDB :: DB where
  "emptyDB = \<lparr>books = [], users = [], orders = [], orderItems = []\<rparr>"

text \<open>
  What the store's keys and the services maintain: book identifiers are unique, no stock
  is negative, every stored line has a positive quantity and names a stored book and a
  stored order.
\<close>

definition consistent :: "DB \<Rightarrow> bool" where
  "consistent db \<longleftrightarrow>
     distinct (map bid (books db))
     \<and> (\<forall>b \<in> set (books db). 0 \<le> stockQuantity b)
     \<and> (\<forall>it \<in> set (orderItems db).
           0 < quantity it \<and> book_findUnique db (bookId it) \<noteq> None
           \<and> order_findUnique db (orderId it) \<noteq> None)"


section \<open>Notions used in the statements\<close>

text \<open>
  Notions for stating what \<^verbatim>\<open>createOrder\<close> does: a line passes the first loop when it
  has an id, a positive quantity and a book whose stock covers the quantity; the priced
  line is what the loop pushes for it.
\<close>

definition line_ok :: "DB \<Rightarrow> CreateOrderItemDTO \<Rightarrow> bool" where
  "line_ok db item \<longleftrightarrow>
     bookId item \<noteq> [] \<and> 0 < quantity item
     \<and> (case book_findUnique db (bookId item) of None \<Rightarrow> False | Some b \<Rightarrow> quantity item \<le> stockQuantity b)"

definition priced :: "Env \<Rightarrow> DB \<Rightarrow> CreateOrderItemDTO \<Rightarrow> OrderItemData" where
  "priced env db item =
     (case book_findUnique db (bookId item) of
        None \<Rightarrow> \<lparr>bookId = bookId item, quantity = quantity item, unitPrice = 0, subtotal = 0\<rparr>
      | Some b \<Rightarrow> \<lparr>bookId = bookId item, quantity = quantity item, unitPrice = price b,
                   subtotal = num_times env (price b) (real_of_int (quantity item))\<rparr>)"

text \<open>The running total of the first loop: the subtotals added one by one, in order.\<close>

definition running_total :: "Env \<Rightarrow> real \<Rightarrow> 'a OrderItemData_scheme list \<Rightarrow> real" where
  "running_total env t xs = foldl (num_plus env) t (map subtotal xs)"

text \<open>The row that \<^verbatim>\<open>order.create\<close> stores for a priced line of order \<open>n\<close>.\<close>

definition stored :: "string \<Rightarrow> OrderItemData \<Rightarrow> OrderItem" where
  "stored n it = \<lparr>bookId = bookId it, quantity = quantity it, unitPrice = unitPrice it,
                  subtotal = subtotal it, orderId = n\<rparr>"









section \<open>A small store, for running the definitions\<close>

definition bookA :: Book where
  "bookA = \<lparr>title = ''Dune'', authors = [''Herbert''], genre = ''SF'', isbn = ''111'', price = 10,
             description = None, stockQuantity = 5, imageUrl = None, bid = ''A''\<rparr>"

definition bookB :: Book where
  "bookB = \<lparr>title = ''Emma'', authors = [''Austen''], genre = ''Novel'', isbn = ''222'', price = 4,
             description = None, stockQuantity = 2, imageUrl = None, bid = ''B''\<rparr>"

definition alice :: User where
  "alice = \<lparr>name = ''Alice'', email = ''alice@example.com'', password = ''hash'', uid = ''u1'',
             role = CUSTOMER\<rparr>"

definition db0 :: DB where
  "db0 = \<lparr>books = [bookA, bookB], users = [alice], orders = [], orderItems = []\<rparr>"

definition env0 :: Env where
  "env0 = \<lparr>num_times = (\<lambda>a b. a * b), num_plus = (\<lambda>a b. a + b),
            emailRegex_test = (\<lambda>s. CHR ''@'' \<in> set s), toLowerCase_trim = (\<lambda>s. s),
            hashPassword = (\<lambda>s. ''#'' @ s), generateToken = (\<lambda>i e r. ''jwt-'' @ i)\<rparr>"



definition admin :: AuthenticatedUser where
  "admin = \<lparr>auth_userId = ''u0'', auth_email = ''admin@example.com'', auth_role = ADMIN\<rparr>"

definition customer :: AuthenticatedUser where
  "customer = \<lparr>auth_userId = ''u1'', auth_email = ''alice@example.com'', auth_role = CUSTOMER\<rparr>"


text \<open>The same store after Alice's order \<open>o1\<close> for 3 of A and 2 of B.\<close>

definition orderO1 :: Order where
  "orderO1 = \<lparr>oid = ''o1'', userId = ''u1'', totalPrice = 38, orderStatus = PENDING,
               paymentStatus = PaymentStatus_PENDING\<rparr>"

definition itemsO1 :: "OrderItem list" where
  "itemsO1 = [\<lparr>bookId = ''A'', quantity = 3, unitPrice = 10, subtotal = 30, orderId = ''o1''\<rparr>,
              \<lparr>bookId = ''B'', quantity = 2, unitPrice = 4, subtotal = 8, orderId = ''o1''\<rparr>]"

definition db1 :: DB where
  "db1 = \<lparr>books = [bookA\<lparr>stockQuantity := 2\<rparr>, bookB\<lparr>stockQuantity := 0\<rparr>], users = [alice],
           orders = [orderO1], orderItems = itemsO1\<rparr>"

text \<open>A registration request that asks for the ADMIN role.\<close>

definition mallory :: RegisterBody where
  "mallory = \<lparr>body_name = ''Mallory'', body_email = ''mallory@example.com'',
               body_password = ''secret1'', body_role = Some ''ADMIN''\<rparr>"

text \<open>Orders against the small store: one that fits, and ones that do not.\<close>

definition dtoAB :: CreateOrderDTO where
  "dtoAB = \<lparr>items = [\<lparr>bookId = ''A'', quantity = 3\<rparr>, \<lparr>bookId = ''B'', quantity = 2\<rparr>]\<rparr>"

definition dtoAB3 :: CreateOrderDTO where
  "dtoAB3 = \<lparr>items = [\<lparr>bookId = ''A'', quantity = 1\<rparr>, \<lparr>bookId = ''B'', quantity = 3\<rparr>]\<rparr>"

definition dtoAA :: CreateOrderDTO where
  "dtoAA = \<lparr>items = [\<lparr>bookId = ''A'', quantity = 3\<rparr>, \<lparr>bookId = ''A'', quantity = 3\<rparr>]\<rparr>"

definition dtoBB :: CreateOrderDTO where
  "dtoBB = \<lparr>items = [\<lparr>bookId = ''B'', quantity = 1\<rparr>, \<lparr>bookId = ''B'', quantity = 2\<rparr>]\<rparr>"

text \<open>Admin requests: set the stock of a book to 40; a service-level update to -7.\<close>

definition putStock40 :: BookUpdateBody where
  "putStock40 = \<lparr>put_title = None, put_authors = None, put_genre = None, put_isbn = None,
                  put_price = Missing, put_description = None, put_stockQuantity = Val 40,
                  put_imageUrl = None\<rparr>"

definition updStockNeg :: UpdateBookDTO where
  "updStockNeg = \<lparr>upd_title = None, upd_authors = None, upd_genre = None, upd_isbn = None,
                   upd_price = None, upd_description = None, upd_stockQuantity = Some (- 7),
                   upd_imageUrl = None\<rparr>"

definition requests0 :: "request list" where
  "requests0 = [OrdersPost (Some customer) (Some (items dtoAB)) ''o1'',
                BookPut (Some admin) ''A'' putStock40,
                CancelOrder ''o1'' ''u1'']"




section \<open>Facts about the store calls\<close>

lemmas example_defs = db0_def bookA_def bookB_def alice_def env0_def

lemmas store_defs = stockOf_def book_findUnique_def book_update_def decrement_def increment_def

lemma find_map_upd:
  "(\<And>x. key (g x) = key x) \<Longrightarrow>
   find (\<lambda>x. key x = k) (map g xs) = map_option g (find (\<lambda>x. key x = k) xs)"
  by (induction xs) auto

lemma book_findUnique_bid: "book_findUnique db k = Some b \<Longrightarrow> bid b = k"
  unfolding book_findUnique_def by (auto dest: find_Some_iff[THEN iffD1])

lemma book_findUnique_books_map:
  assumes "\<And>b. bid (f b) = bid b"
  shows "book_findUnique (db\<lparr>books := map (\<lambda>b. if bid b = k then f b else b) (books db)\<rparr>) k'
         = map_option (\<lambda>b. if bid b = k then f b else b) (book_findUnique db k')"
  unfolding book_findUnique_def using assms by (simp add: find_map_upd)

lemma bid_decrement [simp]: "bid (decrement q b) = bid b"
  by (simp add: decrement_def)

lemma bid_increment [simp]: "bid (increment q b) = bid b"
  by (simp add: increment_def)

lemma book_update_ok:
  assumes "book_findUnique db k = Some b" and "\<And>b. bid (f b) = bid b"
  shows "\<exists>db'. book_update k f db = (db', Inr ())
           \<and> book_findUnique db' k = Some (f b)
           \<and> (\<forall>k'. k' \<noteq> k \<longrightarrow> book_findUnique db' k' = book_findUnique db k')
           \<and> users db' = users db \<and> orders db' = orders db \<and> orderItems db' = orderItems db"
proof -
  have kb: "bid b = k" using assms(1) by (rule book_findUnique_bid)
  let ?db' = "db\<lparr>books := map (\<lambda>b. if bid b = k then f b else b) (books db)\<rparr>"
  have 1: "book_update k f db = (?db', Inr ())" using assms(1) by (simp add: book_update_def)
  have 2: "book_findUnique ?db' k = Some (f b)"
    using assms kb by (simp add: book_findUnique_books_map)
  have 3: "\<forall>k'. k' \<noteq> k \<longrightarrow> book_findUnique ?db' k' = book_findUnique db k'"
  proof (intro allI impI)
    fix k' assume "k' \<noteq> k"
    show "book_findUnique ?db' k' = book_findUnique db k'"
    proof (cases "book_findUnique db k'")
      case None then show ?thesis using assms(2) by (simp add: book_findUnique_books_map)
    next
      case (Some c)
      then have "bid c = k'" by (rule book_findUnique_bid)
      with Some \<open>k' \<noteq> k\<close> show ?thesis using assms(2) by (simp add: book_findUnique_books_map)
    qed
  qed
  show ?thesis using 1 2 3 by simp
qed

section \<open>The inventory decrement\<close>

text \<open>
  Claim C2, as the code has it. Run on its own, \<^verbatim>\<open>decrementStock\<close> fails with
  ``Book not found'' when no book has the id, fails with ``Insufficient stock'' when the
  stock is below the quantity, and otherwise subtracts exactly the quantity from that
  book's stock and from no other. It does so in two store calls, a read and then a write:
  the first step leaves the store as it is and decides, the second applies the decrement.
\<close>

theorem decrementStock_sequential:
  "(stockOf db k = None \<longrightarrow> decrementStock k q db = (db, Inl (Error ''Book not found'')))
   \<and> (\<forall>s. stockOf db k = Some s \<and> s < q \<longrightarrow>
          decrementStock k q db = (db, Inl (Error ''Insufficient stock'')))
   \<and> (\<forall>s. stockOf db k = Some s \<and> q \<le> s \<longrightarrow>
          (\<exists>db'. decrementStock k q db = (db', Inr ())
             \<and> stockOf db' k = Some (s - q)
             \<and> (\<forall>k'. k' \<noteq> k \<longrightarrow> stockOf db' k' = stockOf db k')))
   \<and> (case decrementStock_step (AtFindUnique k q) db of
         (db_r, p_r) \<Rightarrow> db_r = db \<and>
           (case decrementStock_step p_r db_r of
              (db_w, p_w) \<Rightarrow> decrementStock k q db =
                 (db_w, case p_w of Thrown e \<Rightarrow> Inl e | _ \<Rightarrow> Inr ())))"
proof (intro conjI allI impI)
  assume "stockOf db k = None"
  then show "decrementStock k q db = (db, Inl (Error ''Book not found''))"
    by (simp add: stockOf_def decrementStock_def)
next
  fix s assume "stockOf db k = Some s \<and> s < q"
  then show "decrementStock k q db = (db, Inl (Error ''Insufficient stock''))"
    by (auto simp: stockOf_def decrementStock_def)
next
  fix s assume a: "stockOf db k = Some s \<and> q \<le> s"
  then obtain b where b: "book_findUnique db k = Some b" "stockQuantity b = s"
    by (auto simp: stockOf_def)
  from book_update_ok[OF b(1), of "decrement q"] obtain db' where
    d: "book_update k (decrement q) db = (db', Inr ())"
       "book_findUnique db' k = Some (decrement q b)"
       "\<forall>k'. k' \<noteq> k \<longrightarrow> book_findUnique db' k' = book_findUnique db k'"
    by auto
  have "decrementStock k q db = (db', Inr ())"
    using a b d(1) by (simp add: decrementStock_def)
  moreover have "stockOf db' k = Some (s - q)"
    using d(2) b(2) by (simp add: stockOf_def decrement_def)
  moreover have "\<forall>k'. k' \<noteq> k \<longrightarrow> stockOf db' k' = stockOf db k'"
    using d(3) by (simp add: stockOf_def)
  ultimately show "\<exists>db'. decrementStock k q db = (db', Inr ())
             \<and> stockOf db' k = Some (s - q)
             \<and> (\<forall>k'. k' \<noteq> k \<longrightarrow> stockOf db' k' = stockOf db k')"
    by blast
next
  show "case decrementStock_step (AtFindUnique k q) db of
         (db_r, p_r) \<Rightarrow> db_r = db \<and>
           (case decrementStock_step p_r db_r of
              (db_w, p_w) \<Rightarrow> decrementStock k q db =
                 (db_w, case p_w of Thrown e \<Rightarrow> Inl e | _ \<Rightarrow> Inr ()))"
    by (auto simp: decrementStock_def book_update_def split: option.splits)
qed

text \<open>Book A holds 5: taking 3 leaves 2 and leaves B alone; taking 6 fails; book C is unknown.\<close>

theorem decrementStock_sequential_witness:
  "stockOf db0 ''A'' = Some 5
   \<and> (\<exists>db'. decrementStock ''A'' 3 db0 = (db', Inr ()) \<and> stockOf db' ''A'' = Some 2
            \<and> stockOf db' ''B'' = stockOf db0 ''B'')
   \<and> decrementStock ''A'' 6 db0 = (db0, Inl (Error ''Insufficient stock''))
   \<and> decrementStock ''C'' 1 db0 = (db0, Inl (Error ''Book not found''))"
proof -
  have s: "stockOf db0 ''A'' = Some 5" "stockOf db0 ''C'' = None"
    by (simp_all add: store_defs example_defs)
  from decrementStock_sequential[of db0 "''A''" 3] s
  have "\<exists>db'. decrementStock ''A'' 3 db0 = (db', Inr ()) \<and> stockOf db' ''A'' = Some (5 - 3)
            \<and> (\<forall>k'. k' \<noteq> ''A'' \<longrightarrow> stockOf db' k' = stockOf db0 k')" by simp
  then have 1: "\<exists>db'. decrementStock ''A'' 3 db0 = (db', Inr ()) \<and> stockOf db' ''A'' = Some 2
            \<and> stockOf db' ''B'' = stockOf db0 ''B''" by auto
  from decrementStock_sequential[of db0 "''A''" 6] s
  have 2: "decrementStock ''A'' 6 db0 = (db0, Inl (Error ''Insufficient stock''))" by simp
  from decrementStock_sequential[of db0 "''C''" 1] s
  have 3: "decrementStock ''C'' 1 db0 = (db0, Inl (Error ''Book not found''))" by simp
  show ?thesis using s 1 2 3 by simp
qed

text \<open>
  The claim as the spec words it asks for one indivisible conditional update. Two calls
  for the 5 copies of book A, each asking for all 5, both read before either writes: both
  return normally and the stock ends at -5.
\<close>

theorem decrementStock_interleaved_counterexample:
  "stockOf db0 ''A'' = Some 5
   \<and> interleave [First, Second, First, Second] (db0, AtFindUnique ''A'' 5, AtFindUnique ''A'' 5)
       = (db0\<lparr>books := [bookA\<lparr>stockQuantity := - 5\<rparr>, bookB]\<rparr>, Returned, Returned)"
  by (simp add: store_defs example_defs)


lemmas example1_defs = db1_def orderO1_def itemsO1_def bookA_def bookB_def alice_def

lemma order_findUnique_oid: "order_findUnique db k = Some r \<Longrightarrow> oid r = k"
  unfolding order_findUnique_def by (auto dest: find_Some_iff[THEN iffD1])

lemma order_findUnique_orders_map:
  assumes "\<And>r. oid (f r) = oid r"
  shows "order_findUnique (db\<lparr>orders := map (\<lambda>r. if oid r = k then f r else r) (orders db)\<rparr>) k'
         = map_option (\<lambda>r. if oid r = k then f r else r) (order_findUnique db k')"
  unfolding order_findUnique_def using assms by (simp add: find_map_upd)

lemma order_update_ok:
  assumes "order_findUnique db k = Some r" and "\<And>r. oid (f r) = oid r"
  shows "\<exists>db'. order_update k f db = (db', Inr (f r, orderItem_findMany db k))
           \<and> order_findUnique db' k = Some (f r)
           \<and> (\<forall>k'. k' \<noteq> k \<longrightarrow> order_findUnique db' k' = order_findUnique db k')
           \<and> users db' = users db \<and> books db' = books db \<and> orderItems db' = orderItems db"
proof -
  have kr: "oid r = k" using assms(1) by (rule order_findUnique_oid)
  let ?db' = "db\<lparr>orders := map (\<lambda>r. if oid r = k then f r else r) (orders db)\<rparr>"
  have 1: "order_update k f db = (?db', Inr (f r, orderItem_findMany db k))"
    using assms(1) by (simp add: order_update_def)
  have 2: "order_findUnique ?db' k = Some (f r)"
    using assms kr by (simp add: order_findUnique_orders_map)
  have 3: "\<forall>k'. k' \<noteq> k \<longrightarrow> order_findUnique ?db' k' = order_findUnique db k'"
  proof (intro allI impI)
    fix k' assume "k' \<noteq> k"
    show "order_findUnique ?db' k' = order_findUnique db k'"
    proof (cases "order_findUnique db k'")
      case None then show ?thesis using assms(2) by (simp add: order_findUnique_orders_map)
    next
      case (Some c)
      then have "oid c = k'" by (rule order_findUnique_oid)
      with Some \<open>k' \<noteq> k\<close> show ?thesis using assms(2) by (simp add: order_findUnique_orders_map)
    qed
  qed
  show ?thesis using 1 2 3 by simp
qed

section \<open>Order status updates\<close>

text \<open>
  Claim C8. \<^verbatim>\<open>updateOrderStatus\<close> fails with ``Order not found'' when no order has
  the id. Otherwise it succeeds for every status value and writes that status into the
  order, whatever the old status was. Nothing else changes: the books table (so every
  stock), the users and the order items are the same tables as before; the order keeps
  its id, owner, total price and payment status; every other order is as it was.
\<close>

theorem updateOrderStatus_frame:
  "(order_findUnique db k = None \<longrightarrow> updateOrderStatus k dto db = (db, Inl (Error ''Order not found'')))
   \<and> (\<forall>r. order_findUnique db k = Some r \<longrightarrow>
         (\<exists>db' r'. updateOrderStatus k dto db = (db', Inr (r', orderItem_findMany db k))
            \<and> order_findUnique db' k = Some r'
            \<and> orderStatus r' = status dto
            \<and> oid r' = oid r \<and> userId r' = userId r \<and> totalPrice r' = totalPrice r
            \<and> paymentStatus r' = paymentStatus r
            \<and> (\<forall>k'. k' \<noteq> k \<longrightarrow> order_findUnique db' k' = order_findUnique db k')
            \<and> books db' = books db \<and> users db' = users db \<and> orderItems db' = orderItems db
            \<and> (\<forall>k'. stockOf db' k' = stockOf db k')
            \<and> orderItem_findMany db' k = orderItem_findMany db k))"
proof (intro conjI allI impI)
  assume "order_findUnique db k = None"
  then show "updateOrderStatus k dto db = (db, Inl (Error ''Order not found''))"
    by (simp add: updateOrderStatus_def)
next
  fix r assume r: "order_findUnique db k = Some r"
  from order_update_ok[OF r, of "\<lambda>r. r\<lparr>orderStatus := status dto\<rparr>"] obtain db' where
    d: "order_update k (\<lambda>r. r\<lparr>orderStatus := status dto\<rparr>) db
          = (db', Inr (r\<lparr>orderStatus := status dto\<rparr>, orderItem_findMany db k))"
       "order_findUnique db' k = Some (r\<lparr>orderStatus := status dto\<rparr>)"
       "\<forall>k'. k' \<noteq> k \<longrightarrow> order_findUnique db' k' = order_findUnique db k'"
       "users db' = users db" "books db' = books db" "orderItems db' = orderItems db"
    by auto
  have u: "updateOrderStatus k dto db = (db', Inr (r\<lparr>orderStatus := status dto\<rparr>, orderItem_findMany db k))"
    using r d(1) by (simp add: updateOrderStatus_def)
  have s: "\<forall>k'. stockOf db' k' = stockOf db k'"
    using d(5) by (simp add: stockOf_def book_findUnique_def)
  have i: "orderItem_findMany db' k = orderItem_findMany db k"
    using d(6) by (simp add: orderItem_findMany_def)
  show "\<exists>db' r'. updateOrderStatus k dto db = (db', Inr (r', orderItem_findMany db k))
            \<and> order_findUnique db' k = Some r'
            \<and> orderStatus r' = status dto
            \<and> oid r' = oid r \<and> userId r' = userId r \<and> totalPrice r' = totalPrice r
            \<and> paymentStatus r' = paymentStatus r
            \<and> (\<forall>k'. k' \<noteq> k \<longrightarrow> order_findUnique db' k' = order_findUnique db k')
            \<and> books db' = books db \<and> users db' = users db \<and> orderItems db' = orderItems db
            \<and> (\<forall>k'. stockOf db' k' = stockOf db k')
            \<and> orderItem_findMany db' k = orderItem_findMany db k"
    apply (rule exI[of _ db'], rule exI[of _ "r\<lparr>orderStatus := status dto\<rparr>"])
    using u d s i by simp
qed


text \<open>
  Order \<open>o1\<close> is marked DELIVERED: its total and owner stay, the stock of A stays at 2.
  There is no order \<open>o9\<close>.
\<close>

theorem updateOrderStatus_frame_witness:
  "order_findUnique db1 ''o1'' = Some orderO1
   \<and> order_findUnique db1 ''o9'' = None
   \<and> updateOrderStatus ''o9'' \<lparr>status = SHIPPED\<rparr> db1 = (db1, Inl (Error ''Order not found''))
   \<and> (\<exists>db' r'. updateOrderStatus ''o1'' \<lparr>status = DELIVERED\<rparr> db1 = (db', Inr (r', itemsO1))
         \<and> orderStatus r' = DELIVERED \<and> totalPrice r' = 38 \<and> userId r' = ''u1''
         \<and> books db' = books db1 \<and> orderItems db' = itemsO1
         \<and> stockOf db' ''A'' = Some 2)"
proof -
  have f: "order_findUnique db1 ''o1'' = Some orderO1" "order_findUnique db1 ''o9'' = None"
    "orderItem_findMany db1 ''o1'' = itemsO1" "orderItems db1 = itemsO1"
    "stockOf db1 ''A'' = Some 2"
    by (simp_all add: order_findUnique_def orderItem_findMany_def store_defs example1_defs)
  have o: "totalPrice orderO1 = 38" "userId orderO1 = ''u1''" by (simp_all add: orderO1_def)
  from updateOrderStatus_frame[of db1 "''o9''" "\<lparr>status = SHIPPED\<rparr>"] f
  have 1: "updateOrderStatus ''o9'' \<lparr>status = SHIPPED\<rparr> db1 = (db1, Inl (Error ''Order not found''))"
    by simp
  from updateOrderStatus_frame[of db1 "''o1''" "\<lparr>status = DELIVERED\<rparr>"] f o
  have 2: "\<exists>db' r'. updateOrderStatus ''o1'' \<lparr>status = DELIVERED\<rparr> db1 = (db', Inr (r', itemsO1))
         \<and> orderStatus r' = DELIVERED \<and> totalPrice r' = 38 \<and> userId r' = ''u1''
         \<and> books db' = books db1 \<and> orderItems db' = itemsO1
         \<and> stockOf db' ''A'' = Some 2"
    by (simp, metis)
  show ?thesis using f 1 2 by simp
qed


section \<open>Registration\<close>

lemma registerUser_effect:
  "registerUser env newId dto db = (db', res) \<Longrightarrow>
     (case res of
        Inl e \<Rightarrow> db' = db
      | Inr a \<Rightarrow> user_role a = CUSTOMER
           \<and> (\<exists>u. users db' = users db @ [u] \<and> role u = CUSTOMER \<and> uid u = newId
                  \<and> email u = email dto)
           \<and> books db' = books db \<and> orders db' = orders db \<and> orderItems db' = orderItems db)"
  by (auto simp: registerUser_def user_create_def Let_def split: option.splits if_splits)

text \<open>
  Claim C10. The register route builds its DTO from the name, the email and the password
  of the body and from nothing else, and \<^verbatim>\<open>registerUser\<close> writes the role CUSTOMER.
  So a \<open>role\<close> in the body changes nothing; a registration that succeeds appends one
  user, with role CUSTOMER, and answers with that role; a registration that fails leaves
  the store as it was; and the ADMIN users are the same before and after.
\<close>

theorem register_POST_role:
  "register_POST env (body\<lparr>body_role := r\<rparr>) newId db = register_POST env body newId db
   \<and> (case register_POST env body newId db of
         (db', Json n a) \<Rightarrow>
            user_role a = CUSTOMER
            \<and> (\<exists>u. users db' = users db @ [u] \<and> role u = CUSTOMER \<and> uid u = newId)
            \<and> books db' = books db \<and> orders db' = orders db \<and> orderItems db' = orderItems db
       | (db', ErrorJson n l m) \<Rightarrow> db' = db)
   \<and> filter (\<lambda>u. role u = ADMIN) (users (fst (register_POST env body newId db)))
       = filter (\<lambda>u. role u = ADMIN) (users db)"
proof (intro conjI)
  show "register_POST env (body\<lparr>body_role := r\<rparr>) newId db = register_POST env body newId db"
    by (simp add: register_POST_def)
next
  obtain db' res where rr: "registerUser env newId
      \<lparr>name = body_name body, email = toLowerCase_trim env (body_email body), password = body_password body\<rparr> db
      = (db', res)" by (cases "registerUser env newId
      \<lparr>name = body_name body, email = toLowerCase_trim env (body_email body), password = body_password body\<rparr> db")
  note eff = registerUser_effect[OF rr]
  show "case register_POST env body newId db of
         (db', Json n a) \<Rightarrow>
            user_role a = CUSTOMER
            \<and> (\<exists>u. users db' = users db @ [u] \<and> role u = CUSTOMER \<and> uid u = newId)
            \<and> books db' = books db \<and> orders db' = orders db \<and> orderItems db' = orderItems db
       | (db', ErrorJson n l m) \<Rightarrow> db' = db"
    using rr eff by (cases res) (auto simp: register_POST_def Let_def)
  show "filter (\<lambda>u. role u = ADMIN) (users (fst (register_POST env body newId db)))
       = filter (\<lambda>u. role u = ADMIN) (users db)"
    using rr eff by (cases res) (auto simp: register_POST_def Let_def)
qed

text \<open>Mallory asks for ADMIN and is registered as a CUSTOMER.\<close>

theorem register_POST_role_witness:
  "body_role mallory = Some ''ADMIN''
   \<and> status_of (snd (register_POST env0 mallory ''u2'' db0)) = 201
   \<and> (\<exists>db' n a. register_POST env0 mallory ''u2'' db0 = (db', Json n a) \<and> user_role a = CUSTOMER
         \<and> map role (users db') = [CUSTOMER, CUSTOMER])
   \<and> register_POST env0 (mallory\<lparr>body_role := None\<rparr>) ''u2'' db0 = register_POST env0 mallory ''u2'' db0"
proof -
  have c: "register_POST env0 mallory ''u2'' db0 =
      (db0\<lparr>users := [alice, \<lparr>name = ''Mallory'', email = ''mallory@example.com'', password = ''#secret1'',
                              uid = ''u2'', role = CUSTOMER\<rparr>]\<rparr>,
       Json 201 \<lparr>token = ''jwt-u2'', tokenType = ''Bearer'', expiresIn = getTokenExpiresIn,
                 user_id = ''u2'', user_name = ''Mallory'', user_email = ''mallory@example.com'',
                 user_role = CUSTOMER\<rparr>)"
    by (simp add: register_POST_def registerUser_def user_create_def user_findUnique_email_def
        mallory_def env0_def db0_def alice_def Let_def)
  have r: "body_role mallory = Some ''ADMIN''" by (simp add: mallory_def)
  note th = register_POST_role[where env = env0 and body = mallory and r = None and newId = "''u2''" and db = db0]
  have t: "register_POST env0 (mallory\<lparr>body_role := None\<rparr>) ''u2'' db0 = register_POST env0 mallory ''u2'' db0"
    by (rule th[THEN conjunct1])
  have u: "case register_POST env0 mallory ''u2'' db0 of
         (db', Json n a) \<Rightarrow>
            user_role a = CUSTOMER
            \<and> (\<exists>u. users db' = users db0 @ [u] \<and> role u = CUSTOMER \<and> uid u = ''u2'')
            \<and> books db' = books db0 \<and> orders db' = orders db0 \<and> orderItems db' = orderItems db0
       | (db', ErrorJson n l m) \<Rightarrow> db' = db0"
    by (rule th[THEN conjunct2, THEN conjunct1])
  from u have "\<exists>db' n a. register_POST env0 mallory ''u2'' db0 = (db', Json n a) \<and> user_role a = CUSTOMER
         \<and> map role (users db') = [CUSTOMER, CUSTOMER]"
    unfolding c by (auto simp: db0_def alice_def)
  then show ?thesis using r t c by simp
qed


section \<open>The two loops of order placement\<close>

lemma validate_ok:
  "\<forall>it \<in> set its. line_ok db it \<Longrightarrow>
   createOrder_validate env db its acc tot
     = Inr (acc @ map (priced env db) its, running_total env tot (map (priced env db) its))"
proof (induction its arbitrary: acc tot)
  case Nil
  then show ?case by (simp add: running_total_def)
next
  case (Cons it its)
  from Cons.prems have ok: "line_ok db it" and rest: "\<forall>x \<in> set its. line_ok db x" by simp_all
  from ok obtain b where b: "book_findUnique db (bookId it) = Some b" "quantity it \<le> stockQuantity b"
    "bookId it \<noteq> []" "0 < quantity it"
    by (auto simp: line_ok_def split: option.splits)
  show ?case
    using b Cons.IH[OF rest]
    by (simp add: getBookById_def checkStockAvailability_def priced_def Let_def running_total_def)
qed

lemma validate_fail:
  "\<not> (\<forall>it \<in> set its. line_ok db it) \<Longrightarrow> \<exists>e. createOrder_validate env db its acc tot = Inl e"
proof (induction its arbitrary: acc tot)
  case Nil
  then show ?case by simp
next
  case (Cons it its)
  show ?case
  proof (cases "line_ok db it")
    case True
    with Cons.prems have "\<not> (\<forall>x \<in> set its. line_ok db x)" by simp
    from Cons.IH[OF this] True show ?thesis
      by (auto simp: line_ok_def getBookById_def checkStockAvailability_def Let_def split: option.splits)
  next
    case False
    then show ?thesis
      by (auto simp: line_ok_def getBookById_def checkStockAvailability_def Let_def split: option.splits)
  qed
qed

lemma validate_insufficient:
  assumes "\<forall>x \<in> set pre. line_ok db x"
    and "bookId it \<noteq> []" "0 < quantity it"
    and "book_findUnique db (bookId it) = Some b" "stockQuantity b < quantity it"
  shows "createOrder_validate env db (pre @ it # post) acc tot
           = Inl (Error (insufficient_message (title b) (stockQuantity b) (quantity it)))"
  using assms(1)
proof (induction pre arbitrary: acc tot)
  case Nil
  then show ?case using assms(2-)
    by (simp add: getBookById_def checkStockAvailability_def)
next
  case (Cons x pre)
  from Cons.prems have ok: "line_ok db x" and rest: "\<forall>y \<in> set pre. line_ok db y" by simp_all
  from ok obtain c where c: "book_findUnique db (bookId x) = Some c" "quantity x \<le> stockQuantity c"
    "bookId x \<noteq> []" "0 < quantity x"
    by (auto simp: line_ok_def split: option.splits)
  show ?case using c Cons.IH[OF rest]
    by (simp add: getBookById_def checkStockAvailability_def Let_def)
qed

lemma requested_Cons:
  "requested (it # its) k = (if bookId it = k then quantity it else 0) + requested its k"
  by (simp add: requested_def)

lemma requested_Nil [simp]: "requested [] k = 0"
  by (simp add: requested_def)

lemma requested_append: "requested (xs @ ys) k = requested xs k + requested ys k"
  by (simp add: requested_def)

lemma requested_priced: "requested (map (priced env db) its) k = requested its k"
  by (induction its) (auto simp: requested_Cons priced_def split: option.splits)

lemma requested_nonneg: "\<forall>it \<in> set its. 0 < quantity it \<Longrightarrow> 0 \<le> requested its k"
  by (induction its) (auto simp: requested_Cons)

text \<open>What a run of the decrement loop that completes has done.\<close>

lemma decrementAll_result:
  "createOrder_decrementAll its db = (db', Inr ()) \<Longrightarrow>
     (\<forall>k. stockOf db' k = map_option (\<lambda>s. s - requested its k) (stockOf db k))
     \<and> (\<forall>it \<in> set its. \<exists>s. stockOf db' (bookId it) = Some s \<and> 0 \<le> s)
     \<and> users db' = users db \<and> orders db' = orders db \<and> orderItems db' = orderItems db"
proof (induction its arbitrary: db)
  case Nil
  then show ?case by (simp add: option.map_ident)
next
  case (Cons it its)
  from Cons.prems obtain b where b: "book_findUnique db (bookId it) = Some b"
      and ge: "quantity it \<le> stockQuantity b"
    by (auto split: option.splits if_splits)
  from book_update_ok[OF b, of "decrement (quantity it)"] obtain db1 where
    d: "book_update (bookId it) (decrement (quantity it)) db = (db1, Inr ())"
       "book_findUnique db1 (bookId it) = Some (decrement (quantity it) b)"
       "\<forall>k'. k' \<noteq> bookId it \<longrightarrow> book_findUnique db1 k' = book_findUnique db k'"
       "users db1 = users db" "orders db1 = orders db" "orderItems db1 = orderItems db"
    by auto
  from Cons.prems b ge d(1) have rest: "createOrder_decrementAll its db1 = (db', Inr ())"
    by simp
  note ih = Cons.IH[OF rest]
  have s1: "\<And>k. stockOf db1 k = (if k = bookId it then Some (stockQuantity b - quantity it) else stockOf db k)"
    using d(2,3) b by (simp add: stockOf_def decrement_def)
  have st: "\<forall>k. stockOf db' k = map_option (\<lambda>s. s - requested (it # its) k) (stockOf db k)"
  proof
    fix k
    show "stockOf db' k = map_option (\<lambda>s. s - requested (it # its) k) (stockOf db k)"
      using ih s1[of k] b by (cases "k = bookId it") (auto simp: requested_Cons stockOf_def)
  qed
  have first: "\<exists>s. stockOf db' (bookId it) = Some s \<and> 0 \<le> s"
  proof (cases "bookId it \<in> bookId ` set its")
    case True
    then show ?thesis using ih by auto
  next
    case False
    then have "filter (\<lambda>x. bookId x = bookId it) its = []"
      unfolding filter_empty_conv by (metis imageI)
    then have "requested its (bookId it) = 0"
      by (simp add: requested_def)
    then show ?thesis using ih s1[of "bookId it"] ge by simp
  qed
  have ih2: "\<forall>x \<in> set its. \<exists>s. stockOf db' (bookId x) = Some s \<and> 0 \<le> s"
    using ih by blast
  show ?case
  proof (intro conjI)
    show "\<forall>k. stockOf db' k = map_option (\<lambda>s. s - requested (it # its) k) (stockOf db k)"
      by (rule st)
    show "\<forall>x \<in> set (it # its). \<exists>s. stockOf db' (bookId x) = Some s \<and> 0 \<le> s"
      using first ih2 by simp
    show "users db' = users db" "orders db' = orders db" "orderItems db' = orderItems db"
      using ih d(4-6) by simp_all
  qed
qed

lemma decrementAll_error:
  "createOrder_decrementAll its db = (db', Inl e) \<Longrightarrow> e = Error stock_validation_failed"
proof (induction its arbitrary: db)
  case Nil
  then show ?case by simp
next
  case (Cons it its)
  show ?case
  proof (cases "book_findUnique db (bookId it)")
    case None
    with Cons.prems show ?thesis by simp
  next
    case (Some b)
    show ?thesis
    proof (cases "stockQuantity b < quantity it")
      case True
      with Some Cons.prems show ?thesis by simp
    next
      case False
      from book_update_ok[OF Some, of "decrement (quantity it)"] obtain db1 where
        d: "book_update (bookId it) (decrement (quantity it)) db = (db1, Inr ())" by auto
      with Some False Cons.prems have "createOrder_decrementAll its db1 = (db', Inl e)" by simp
      then show ?thesis by (rule Cons.IH)
    qed
  qed
qed


section \<open>Placing an order\<close>

lemma stockOf_frame [simp]:
  "stockOf (db\<lparr>orders := x\<rparr>) k = stockOf db k"
  "stockOf (db\<lparr>orderItems := y\<rparr>) k = stockOf db k"
  "stockOf (db\<lparr>users := z\<rparr>) k = stockOf db k"
  by (simp_all add: stockOf_def book_findUnique_def)

lemma stockOf_None_iff: "stockOf db k = None \<longleftrightarrow> book_findUnique db k = None"
  by (simp add: stockOf_def)



lemma order_create_result:
  "order_create n u tot its db = (db', Inr (r, rows)) \<Longrightarrow>
     db' = db\<lparr>orders := orders db @ [r], orderItems := orderItems db @ rows\<rparr>
     \<and> r = \<lparr>oid = n, userId = u, totalPrice = tot, orderStatus = PENDING,
             paymentStatus = PaymentStatus_PENDING\<rparr>
     \<and> rows = map (stored n) its
     \<and> order_findUnique db n = None
     \<and> (\<forall>it \<in> set its. book_findUnique db (bookId it) \<noteq> None)"
  by (auto simp: order_create_def Let_def stored_def[abs_def] find_None_iff split: if_splits)

lemma order_create_fail: "order_create n u tot its db = (db', Inl e) \<Longrightarrow> db' = db"
  by (auto simp: order_create_def Let_def split: if_splits)



lemmas order_defs = createOrder_def createOrder_tx_def transaction_def getBookById_def
  checkStockAvailability_def order_create_def order_findUnique_def Let_def


section \<open>Orders that the stock does not cover\<close>

lemma createOrder_Inl_unchanged: "createOrder env u n dto db = (db', Inl e) \<Longrightarrow> db' = db"
  by (auto simp: createOrder_def transaction_def split: sum.splits prod.splits if_splits)

lemma createOrder_all_ok:
  assumes "items dto \<noteq> []" and "\<forall>x \<in> set (items dto). line_ok db x"
  shows "createOrder env u n dto db
           = transaction (createOrder_tx u n (map (priced env db) (items dto))
                            (running_total env 0 (map (priced env db) (items dto)))) db"
  using assms(1) validate_ok[OF assms(2), where acc = "[]" and tot = 0 and env = env] by (simp add: createOrder_def)

lemma decrementAll_short:
  assumes "it \<in> set its" and "stockOf db (bookId it) = Some s" and "s < requested its (bookId it)"
  shows "createOrder_decrementAll its db \<noteq> (db', Inr ())"
proof
  assume "createOrder_decrementAll its db = (db', Inr ())"
  from decrementAll_result[OF this] assms(1)
  have "stockOf db' (bookId it) = map_option (\<lambda>s. s - requested its (bookId it)) (stockOf db (bookId it))"
    and "\<exists>s'. stockOf db' (bookId it) = Some s' \<and> 0 \<le> s'" by blast+
  with assms(2,3) show False by simp
qed

lemma createOrder_short:
  assumes "\<forall>x \<in> set (items dto). line_ok db x"
    and "it \<in> set (items dto)" and "stockOf db (bookId it) = Some s"
    and "s < requested (items dto) (bookId it)"
  shows "createOrder env u n dto db = (db, Inl (Error stock_validation_failed))"
proof -
  let ?ps = "map (priced env db) (items dto)"
  have ne: "items dto \<noteq> []" using assms(2) by auto
  have bq: "bookId (priced env db it) = bookId it"
    by (simp add: priced_def split: option.splits)
  have m: "priced env db it \<in> set ?ps" using assms(2) by simp
  obtain dbm res where d: "createOrder_decrementAll ?ps db = (dbm, res)"
    by (cases "createOrder_decrementAll ?ps db")
  have "res \<noteq> Inr ()"
    using decrementAll_short[OF m, of db s dbm] assms(3,4) d by (simp add: bq requested_priced)
  then obtain e where e: "res = Inl e" by (cases res) auto
  with d have "e = Error stock_validation_failed" by (auto dest: decrementAll_error)
  with d e show ?thesis
    unfolding createOrder_all_ok[OF ne assms(1)]
    by (simp add: transaction_def createOrder_tx_def)
qed

text \<open>
  Claim C1. If some line of the item list asks for more than the stock of its book, on its
  own or together with the other lines for the same book, \<^verbatim>\<open>createOrder\<close> fails and
  the store it leaves is the store it found: no stock has moved and no order exists that
  did not exist before. More generally every failure of \<^verbatim>\<open>createOrder\<close> leaves the
  store unchanged; in particular when the loop inside the transaction fails after having
  written some decrements, the transaction gives back the store from before it began.
\<close>

theorem createOrder_insufficient:
  "((\<exists>it \<in> set (items dto). \<exists>s. stockOf db (bookId it) = Some s
        \<and> (s < quantity it \<or> s < requested (items dto) (bookId it)))
      \<longrightarrow> (\<exists>e. createOrder env u n dto db = (db, Inl e)))
   \<and> (\<forall>db' e. createOrder env u n dto db = (db', Inl e) \<longrightarrow> db' = db)
   \<and> (\<forall>its tot tx e. createOrder_tx u n its tot db = (tx, Inl e)
         \<longrightarrow> transaction (createOrder_tx u n its tot) db = (db, Inl e))"
proof (intro conjI impI allI)
  assume "\<exists>it \<in> set (items dto). \<exists>s. stockOf db (bookId it) = Some s
        \<and> (s < quantity it \<or> s < requested (items dto) (bookId it))"
  then obtain it s where it: "it \<in> set (items dto)" "stockOf db (bookId it) = Some s"
    and short: "s < quantity it \<or> s < requested (items dto) (bookId it)" by blast
  have ne: "items dto \<noteq> []" using it(1) by auto
  show "\<exists>e. createOrder env u n dto db = (db, Inl e)"
  proof (cases "\<forall>x \<in> set (items dto). line_ok db x")
    case False
    from validate_fail[OF this, where acc = "[]" and tot = 0 and env = env] ne show ?thesis
      by (auto simp: createOrder_def)
  next
    case True
    with it have "quantity it \<le> s" by (auto simp: line_ok_def stockOf_def split: option.splits)
    with short have "s < requested (items dto) (bookId it)" by simp
    from createOrder_short[OF True it this] show ?thesis by blast
  qed
next
  fix db' e assume "createOrder env u n dto db = (db', Inl e)"
  then show "db' = db" by (rule createOrder_Inl_unchanged)
next
  fix its tot tx e assume "createOrder_tx u n its tot db = (tx, Inl e)"
  then show "transaction (createOrder_tx u n its tot) db = (db, Inl e)"
    by (simp add: transaction_def)
qed

text \<open>
  Stocks are 5 of A and 2 of B. An order for 1 of A and 3 of B fails at the first loop.
  An order with two lines of 3 of A passes the first loop; inside the transaction the
  first decrement is written (A stands at 2) and the second fails; the stock is restored.
\<close>

theorem createOrder_insufficient_witness:
  "stockOf db0 ''A'' = Some 5 \<and> stockOf db0 ''B'' = Some 2
   \<and> (\<exists>e. createOrder env0 ''u1'' ''o1'' dtoAB3 db0 = (db0, Inl e))
   \<and> (\<exists>e. createOrder env0 ''u1'' ''o1'' dtoAA db0 = (db0, Inl e))
   \<and> stockOf (fst (createOrder_tx ''u1'' ''o1'' (map (priced env0 db0) (items dtoAA)) 60 db0)) ''A'' = Some 2
   \<and> transaction (createOrder_tx ''u1'' ''o1'' (map (priced env0 db0) (items dtoAA)) 60) db0
       = (db0, Inl (Error stock_validation_failed))"
proof -
  have s: "stockOf db0 ''A'' = Some 5" "stockOf db0 ''B'' = Some 2"
    by (simp_all add: store_defs example_defs)
  have h1: "\<exists>it \<in> set (items dtoAB3). \<exists>s. stockOf db0 (bookId it) = Some s
        \<and> (s < quantity it \<or> s < requested (items dtoAB3) (bookId it))"
    by (simp add: dtoAB3_def s)
  have h2: "\<exists>it \<in> set (items dtoAA). \<exists>s. stockOf db0 (bookId it) = Some s
        \<and> (s < quantity it \<or> s < requested (items dtoAA) (bookId it))"
    by (simp add: dtoAA_def s requested_def)
  have 1: "\<exists>e. createOrder env0 ''u1'' ''o1'' dtoAB3 db0 = (db0, Inl e)"
    using createOrder_insufficient[where dto = dtoAB3 and db = db0 and u = "''u1''" and n = "''o1''" and env = env0] h1 by blast
  have 2: "\<exists>e. createOrder env0 ''u1'' ''o1'' dtoAA db0 = (db0, Inl e)"
    using createOrder_insufficient[where dto = dtoAA and db = db0 and u = "''u1''" and n = "''o1''" and env = env0] h2 by blast
  have tx: "createOrder_tx ''u1'' ''o1'' (map (priced env0 db0) (items dtoAA)) 60 db0
      = (db0\<lparr>books := [bookA\<lparr>stockQuantity := 2\<rparr>, bookB]\<rparr>, Inl (Error stock_validation_failed))"
    by (simp add: createOrder_tx_def priced_def store_defs dtoAA_def example_defs)
  have 3: "stockOf (fst (createOrder_tx ''u1'' ''o1'' (map (priced env0 db0) (items dtoAA)) 60 db0)) ''A'' = Some 2"
    unfolding tx by (simp add: store_defs example_defs)
  have 4: "transaction (createOrder_tx ''u1'' ''o1'' (map (priced env0 db0) (items dtoAA)) 60) db0
       = (db0, Inl (Error stock_validation_failed))"
    using createOrder_insufficient[where dto = dtoAA and db = db0 and u = "''u1''" and n = "''o1''" and env = env0] tx by blast
  show ?thesis using s 1 2 3 4 by simp
qed


section \<open>How a stock failure is reported\<close>

lemma str_includes_prefix: "p \<noteq> [] \<Longrightarrow> str_includes (p @ s) p"
  by (cases p) simp_all

lemma insufficient_message_includes:
  "str_includes (insufficient_message t a r) ''Insufficient stock''"
proof -
  have "insufficient_message t a r = ''Insufficient stock'' @
      ('' for book '' @ [CHR 0x22] @ t @ [CHR 0x22] @ ''. Available: '' @ show_int a
         @ '', Requested: '' @ show_int r)"
    by (simp add: insufficient_message_def)
  then show ?thesis using str_includes_prefix[of "''Insufficient stock''"] by simp
qed

lemma stock_validation_failed_status:
  "orders_error (Error stock_validation_failed)
     = ErrorJson 500 ''Internal Server Error'' stock_validation_failed"
  by (simp add: orders_error_def message_or_def stock_validation_failed_def Let_def)

lemma msg_Emma: "insufficient_message ''Emma'' 2 3
   = ''Insufficient stock for book '' @ [CHR 0x22] @ ''Emma'' @ [CHR 0x22] @ ''. Available: 2, Requested: 3''"
  by (simp add: insufficient_message_def show_int_def)

text \<open>
  Claim C5, as the code has it. The two stock failures are reported differently. When the
  first loop finds a line whose book has too little stock (the lines before it having
  passed), the error message names the book's title, its stock and the requested
  quantity; the orders route answers 400 with it, or 404 when the message happens to
  contain ``not found''. When the loop inside the transaction fails, the error is always
  the one fixed message, which names no book and no quantity, and the orders route
  answers 500 with it.
\<close>

theorem createOrder_insufficient_messages:
  "(\<forall>pre it post b.
       items dto = pre @ it # post \<and> (\<forall>x \<in> set pre. line_ok db x)
       \<and> bookId it \<noteq> [] \<and> 0 < quantity it
       \<and> book_findUnique db (bookId it) = Some b \<and> stockQuantity b < quantity it
       \<longrightarrow> createOrder env u n dto db
             = (db, Inl (Error (insufficient_message (title b) (stockQuantity b) (quantity it)))))
   \<and> ((\<forall>x \<in> set (items dto). line_ok db x)
        \<and> (\<exists>it \<in> set (items dto). \<exists>s. stockOf db (bookId it) = Some s
               \<and> s < requested (items dto) (bookId it))
       \<longrightarrow> createOrder env u n dto db = (db, Inl (Error stock_validation_failed)))
   \<and> (\<forall>its tx tx' e. createOrder_decrementAll its tx = (tx', Inl e)
         \<longrightarrow> e = Error stock_validation_failed)
   \<and> orders_error (Error stock_validation_failed)
        = ErrorJson 500 ''Internal Server Error'' stock_validation_failed
   \<and> (\<forall>t a r. orders_error (Error (insufficient_message t a r))
        = (if str_includes (insufficient_message t a r) ''not found''
           then ErrorJson 404 ''Not Found'' (insufficient_message t a r)
           else ErrorJson 400 ''Bad Request'' (insufficient_message t a r)))"
proof (intro conjI allI impI)
  fix pre it post b
  assume a: "items dto = pre @ it # post \<and> (\<forall>x \<in> set pre. line_ok db x)
       \<and> bookId it \<noteq> [] \<and> 0 < quantity it
       \<and> book_findUnique db (bookId it) = Some b \<and> stockQuantity b < quantity it"
  then have "createOrder_validate env db (items dto) [] 0
      = Inl (Error (insufficient_message (title b) (stockQuantity b) (quantity it)))"
    using validate_insufficient[where pre = pre and db = db and it = it and b = b and post = post and acc = "[]" and tot = 0 and env = env] by simp
  moreover have "items dto \<noteq> []" using a by simp
  ultimately show "createOrder env u n dto db
             = (db, Inl (Error (insufficient_message (title b) (stockQuantity b) (quantity it))))"
    by (simp add: createOrder_def)
next
  assume a: "(\<forall>x \<in> set (items dto). line_ok db x)
        \<and> (\<exists>it \<in> set (items dto). \<exists>s. stockOf db (bookId it) = Some s
               \<and> s < requested (items dto) (bookId it))"
  then obtain it s where "it \<in> set (items dto)" "stockOf db (bookId it) = Some s"
    "s < requested (items dto) (bookId it)" by blast
  with a show "createOrder env u n dto db = (db, Inl (Error stock_validation_failed))"
    using createOrder_short by blast
next
  fix its tx tx' e assume "createOrder_decrementAll its tx = (tx', Inl e)"
  then show "e = Error stock_validation_failed" by (rule decrementAll_error)
next
  show "orders_error (Error stock_validation_failed)
        = ErrorJson 500 ''Internal Server Error'' stock_validation_failed"
    by (rule stock_validation_failed_status)
next
  fix t a r
  have ne: "insufficient_message t a r \<noteq> []" by (simp add: insufficient_message_def)
  show "orders_error (Error (insufficient_message t a r))
        = (if str_includes (insufficient_message t a r) ''not found''
           then ErrorJson 404 ''Not Found'' (insufficient_message t a r)
           else ErrorJson 400 ''Bad Request'' (insufficient_message t a r))"
    using ne insufficient_message_includes[of t a r]
    by (simp add: orders_error_def message_or_def Let_def)
qed

text \<open>
  Against stocks of 5 of A and 2 of B: a line of 3 of B is reported with title and
  numbers; two lines of 3 of A, and lines of 1 and 2 of B, both get the fixed message.
\<close>

theorem createOrder_insufficient_messages_witness:
  "createOrder env0 ''u1'' ''o1'' dtoAB3 db0 = (db0, Inl (Error (insufficient_message ''Emma'' 2 3)))
   \<and> insufficient_message ''Emma'' 2 3
       = ''Insufficient stock for book '' @ [CHR 0x22] @ ''Emma'' @ [CHR 0x22] @ ''. Available: 2, Requested: 3''
   \<and> createOrder env0 ''u1'' ''o1'' dtoAA db0 = (db0, Inl (Error stock_validation_failed))
   \<and> createOrder env0 ''u1'' ''o1'' dtoBB db0 = (db0, Inl (Error stock_validation_failed))"
proof -
  note th = createOrder_insufficient_messages[where db = db0 and u = "''u1''" and n = "''o1''" and env = env0]
  have s: "\<And>k. stockOf db0 k = (if k = ''A'' then Some 5 else if k = ''B'' then Some 2 else None)"
    by (simp add: store_defs example_defs)
  have fb: "book_findUnique db0 ''B'' = Some bookB" "book_findUnique db0 ''A'' = Some bookA"
    by (simp_all add: store_defs example_defs)
  have okA: "line_ok db0 \<lparr>bookId = ''A'', quantity = 1\<rparr>" "line_ok db0 \<lparr>bookId = ''A'', quantity = 3\<rparr>"
    by (simp_all add: line_ok_def fb, simp_all add: bookA_def)
  have okB: "line_ok db0 \<lparr>bookId = ''B'', quantity = 1\<rparr>" "line_ok db0 \<lparr>bookId = ''B'', quantity = 2\<rparr>"
    by (simp_all add: line_ok_def fb, simp_all add: bookB_def)
  have 1: "createOrder env0 ''u1'' ''o1'' dtoAB3 db0
      = (db0, Inl (Error (insufficient_message (title bookB) (stockQuantity bookB) 3)))"
    using th[where dto = dtoAB3, THEN conjunct1, rule_format,
        of "[\<lparr>bookId = ''A'', quantity = 1\<rparr>]" "\<lparr>bookId = ''B'', quantity = 3\<rparr>" "[]" bookB]
      okA fb by (simp add: dtoAB3_def, simp add: bookB_def)
  have 2: "createOrder env0 ''u1'' ''o1'' dtoAA db0 = (db0, Inl (Error stock_validation_failed))"
    using th[where dto = dtoAA, THEN conjunct2, THEN conjunct1] okA
    by (simp add: dtoAA_def s requested_def)
  have 3: "createOrder env0 ''u1'' ''o1'' dtoBB db0 = (db0, Inl (Error stock_validation_failed))"
    using th[where dto = dtoBB, THEN conjunct2, THEN conjunct1] okB
    by (simp add: dtoBB_def s requested_def)
  show ?thesis using 1 2 3 msg_Emma by (simp add: bookB_def)
qed

text \<open>
  The claim as the spec words it gives both failures one shape. Through the route, the
  failure of the first loop is a 400 that names Emma, 2 and 3; the failures inside the
  transaction, for different books and quantities, are one and the same 500.
\<close>

theorem insufficient_shape_counterexample:
  "orders_POST env0 (Some customer) (Some (items dtoAB3)) ''o1'' db0
     = (db0, ErrorJson 400 ''Bad Request''
          (''Insufficient stock for book '' @ [CHR 0x22] @ ''Emma'' @ [CHR 0x22] @ ''. Available: 2, Requested: 3''))
   \<and> orders_POST env0 (Some customer) (Some (items dtoAA)) ''o1'' db0
     = (db0, ErrorJson 500 ''Internal Server Error''
          ''Stock validation failed during order processing. Please try again.'')
   \<and> orders_POST env0 (Some customer) (Some (items dtoBB)) ''o1'' db0
     = (db0, ErrorJson 500 ''Internal Server Error''
          ''Stock validation failed during order processing. Please try again.'')"
  by (simp add: orders_POST_def orders_error_def message_or_def order_defs store_defs
      insufficient_message_def show_int_def stock_validation_failed_def customer_def
      dtoAB3_def dtoAA_def dtoBB_def example_defs)


section \<open>Keys, rows and the restock loop\<close>

lemma book_findUnique_None_iff: "book_findUnique db k = None \<longleftrightarrow> k \<notin> bid ` set (books db)"
  by (auto simp: book_findUnique_def find_None_iff)

lemma order_findUnique_None_iff: "order_findUnique db k = None \<longleftrightarrow> k \<notin> oid ` set (orders db)"
  by (auto simp: order_findUnique_def find_None_iff)

lemma consistent_alt:
  "consistent db \<longleftrightarrow>
     distinct (map bid (books db))
     \<and> (\<forall>b \<in> set (books db). 0 \<le> stockQuantity b)
     \<and> (\<forall>it \<in> set (orderItems db).
           0 < quantity it \<and> bookId it \<in> bid ` set (books db) \<and> orderId it \<in> oid ` set (orders db))"
  by (simp add: consistent_def book_findUnique_None_iff order_findUnique_None_iff)

lemma find_distinct_key:
  "distinct (map key xs) \<Longrightarrow> x \<in> set xs \<Longrightarrow> find (\<lambda>y. key y = key x) xs = Some x"
  by (induction xs) (auto simp: image_iff)

lemma book_findUnique_member:
  "distinct (map bid (books db)) \<Longrightarrow> b \<in> set (books db) \<Longrightarrow> book_findUnique db (bid b) = Some b"
  unfolding book_findUnique_def by (rule find_distinct_key)

lemma book_findUnique_in: "book_findUnique db k = Some b \<Longrightarrow> b \<in> set (books db)"
  unfolding book_findUnique_def by (auto simp: find_Some_iff)

text \<open>With unique ids, a property of every row's stock is a property of every lookup.\<close>

lemma stock_rows_iff:
  assumes "distinct (map bid (books db))"
  shows "(\<forall>b \<in> set (books db). P (stockQuantity b)) \<longleftrightarrow> (\<forall>k s. stockOf db k = Some s \<longrightarrow> P s)"
proof
  assume l: "\<forall>b \<in> set (books db). P (stockQuantity b)"
  show "\<forall>k s. stockOf db k = Some s \<longrightarrow> P s"
    using l by (auto simp: stockOf_def dest: book_findUnique_in)
next
  assume r: "\<forall>k s. stockOf db k = Some s \<longrightarrow> P s"
  show "\<forall>b \<in> set (books db). P (stockQuantity b)"
  proof
    fix b assume "b \<in> set (books db)"
    from book_findUnique_member[OF assms this] have "stockOf db (bid b) = Some (stockQuantity b)"
      by (simp add: stockOf_def)
    with r show "P (stockQuantity b)" by blast
  qed
qed

lemma book_update_bids:
  "(\<And>b. bid (f b) = bid b) \<Longrightarrow> book_update k f db = (db', res) \<Longrightarrow>
     map bid (books db') = map bid (books db)"
  by (auto simp: book_update_def comp_def split: option.splits)

lemma decrementAll_bids:
  "createOrder_decrementAll its db = (db', res) \<Longrightarrow> map bid (books db') = map bid (books db)"
proof (induction its arbitrary: db)
  case Nil
  then show ?case by simp
next
  case (Cons it its)
  show ?case
  proof (cases "book_findUnique db (bookId it)")
    case None
    with Cons.prems show ?thesis by simp
  next
    case (Some b)
    show ?thesis
    proof (cases "stockQuantity b < quantity it")
      case True
      with Some Cons.prems show ?thesis by simp
    next
      case False
      from book_update_ok[OF Some, of "decrement (quantity it)"] obtain db1 where
        d: "book_update (bookId it) (decrement (quantity it)) db = (db1, Inr ())" by auto
      from book_update_bids[OF _ d] have b1: "map bid (books db1) = map bid (books db)" by simp
      from d Some False Cons.prems have "createOrder_decrementAll its db1 = (db', res)" by simp
      from Cons.IH[OF this] b1 show ?thesis by simp
    qed
  qed
qed

lemma restoreAll_bids:
  "cancelOrder_restoreAll its db = (db', res) \<Longrightarrow> map bid (books db') = map bid (books db)"
proof (induction its arbitrary: db)
  case Nil
  then show ?case by simp
next
  case (Cons it its)
  obtain db1 r1 where u: "book_update (bookId it) (increment (quantity it)) db = (db1, r1)"
    by (cases "book_update (bookId it) (increment (quantity it)) db")
  from book_update_bids[OF _ u] have b1: "map bid (books db1) = map bid (books db)" by simp
  show ?case
  proof (cases r1)
    case (Inl e)
    with u Cons.prems b1 show ?thesis by auto
  next
    case (Inr x)
    with u Cons.prems have "cancelOrder_restoreAll its db1 = (db', res)" by simp
    from Cons.IH[OF this] b1 show ?thesis by simp
  qed
qed

lemma restoreAll_result:
  "cancelOrder_restoreAll its db = (db', Inr ()) \<Longrightarrow>
     (\<forall>k. stockOf db' k = map_option (\<lambda>s. s + requested its k) (stockOf db k))
     \<and> users db' = users db \<and> orders db' = orders db \<and> orderItems db' = orderItems db"
proof (induction its arbitrary: db)
  case Nil
  then show ?case by (simp add: option.map_ident)
next
  case (Cons it its)
  from Cons.prems obtain b where b: "book_findUnique db (bookId it) = Some b"
    by (cases "book_findUnique db (bookId it)") (auto simp: book_update_def)
  from book_update_ok[OF b, of "increment (quantity it)"] obtain db1 where
    d: "book_update (bookId it) (increment (quantity it)) db = (db1, Inr ())"
       "book_findUnique db1 (bookId it) = Some (increment (quantity it) b)"
       "\<forall>k'. k' \<noteq> bookId it \<longrightarrow> book_findUnique db1 k' = book_findUnique db k'"
       "users db1 = users db" "orders db1 = orders db" "orderItems db1 = orderItems db"
    by auto
  from Cons.prems d(1) have rest: "cancelOrder_restoreAll its db1 = (db', Inr ())" by simp
  note ih = Cons.IH[OF rest]
  have s1: "\<And>k. stockOf db1 k = (if k = bookId it then Some (stockQuantity b + quantity it) else stockOf db k)"
    using d(2,3) b by (simp add: stockOf_def increment_def)
  have st: "\<forall>k. stockOf db' k = map_option (\<lambda>s. s + requested (it # its) k) (stockOf db k)"
  proof
    fix k
    show "stockOf db' k = map_option (\<lambda>s. s + requested (it # its) k) (stockOf db k)"
      using ih s1[of k] b by (cases "k = bookId it") (auto simp: requested_Cons stockOf_def)
  qed
  show ?case
  proof (intro conjI)
    show "\<forall>k. stockOf db' k = map_option (\<lambda>s. s + requested (it # its) k) (stockOf db k)"
      by (rule st)
    show "users db' = users db" "orders db' = orders db" "orderItems db' = orderItems db"
      using ih d(4-6) by simp_all
  qed
qed

lemma restoreAll_ok:
  "\<forall>it \<in> set its. book_findUnique db (bookId it) \<noteq> None \<Longrightarrow>
     \<exists>db'. cancelOrder_restoreAll its db = (db', Inr ())"
proof (induction its arbitrary: db)
  case Nil
  then show ?case by simp
next
  case (Cons it its)
  from Cons.prems obtain b where b: "book_findUnique db (bookId it) = Some b" by auto
  from book_update_ok[OF b, of "increment (quantity it)"] obtain db1 where
    d: "book_update (bookId it) (increment (quantity it)) db = (db1, Inr ())" by auto
  from book_update_bids[OF _ d] have "bid ` set (books db1) = bid ` set (books db)"
    by (metis bid_increment list.set_map)
  with Cons.prems have "\<forall>x \<in> set its. book_findUnique db1 (bookId x) \<noteq> None"
    by (simp add: book_findUnique_None_iff)
  from Cons.IH[OF this] d show ?case by simp
qed


section \<open>Cancelling an order\<close>

lemma cancelOrder_pending:
  assumes "consistent db"
    and "order_findUnique db k = Some r"
    and "userId r = u"
    and "orderStatus r = PENDING"
  shows "\<exists>db' r'.
           cancelOrder k u db = (db', Inr (r', orderItem_findMany db k))
           \<and> (\<forall>b. stockOf db' b = map_option (\<lambda>s. s + requested (orderItem_findMany db k) b) (stockOf db b))
           \<and> order_findUnique db' k = Some r' \<and> orderStatus r' = CANCELLED
           \<and> userId r' = userId r \<and> totalPrice r' = totalPrice r \<and> paymentStatus r' = paymentStatus r
           \<and> orderItems db' = orderItems db
           \<and> cancelOrder k u db' = (db', Inl (Error ''Only pending orders can be cancelled''))"
proof -
  let ?its = "orderItem_findMany db k"
  have ex: "\<forall>it \<in> set ?its. book_findUnique db (bookId it) \<noteq> None"
    using assms(1) by (simp add: consistent_def orderItem_findMany_def)
  from restoreAll_ok[OF ex] obtain db1 where d: "cancelOrder_restoreAll ?its db = (db1, Inr ())"
    by blast
  from restoreAll_result[OF d] have
    s1: "\<forall>b. stockOf db1 b = map_option (\<lambda>s. s + requested ?its b) (stockOf db b)"
    and f1: "users db1 = users db" "orders db1 = orders db" "orderItems db1 = orderItems db"
    by simp_all
  have r1: "order_findUnique db1 k = Some r" using assms(2) f1 by (simp add: order_findUnique_def)
  from order_update_ok[OF r1, of "\<lambda>r. r\<lparr>orderStatus := CANCELLED\<rparr>"] obtain db' where
    u: "order_update k (\<lambda>r. r\<lparr>orderStatus := CANCELLED\<rparr>) db1
          = (db', Inr (r\<lparr>orderStatus := CANCELLED\<rparr>, orderItem_findMany db1 k))"
       "order_findUnique db' k = Some (r\<lparr>orderStatus := CANCELLED\<rparr>)"
       "users db' = users db1" "books db' = books db1" "orderItems db' = orderItems db1"
    by auto
  have i1: "orderItem_findMany db1 k = ?its" using f1 by (simp add: orderItem_findMany_def)
  have tx: "cancelOrder_tx k db = (db', Inr (r\<lparr>orderStatus := CANCELLED\<rparr>, ?its))"
    using d u(1) i1 by (simp add: cancelOrder_tx_def)
  have c: "cancelOrder k u db = (db', Inr (r\<lparr>orderStatus := CANCELLED\<rparr>, ?its))"
    using assms(2-4) tx by (simp add: cancelOrder_def transaction_def)
  have st: "\<forall>b. stockOf db' b = map_option (\<lambda>s. s + requested ?its b) (stockOf db b)"
    using s1 u(4) by (simp add: stockOf_def book_findUnique_def)
  have again: "cancelOrder k u db' = (db', Inl (Error ''Only pending orders can be cancelled''))"
    using u(2) assms(3) by (simp add: cancelOrder_def)
  show ?thesis
    apply (rule exI[of _ db'], rule exI[of _ "r\<lparr>orderStatus := CANCELLED\<rparr>"])
    using c st u(2) again u(5) f1(3) by simp
qed

lemma find_append_None:
  "find P xs = None \<Longrightarrow> find P (xs @ ys) = find P ys"
  by (induction xs) (auto split: if_splits)

lemma find_append_Some:
  "find P xs = Some x \<Longrightarrow> find P (xs @ ys) = Some x"
  by (induction xs) (auto split: if_splits)

lemma createOrder_result:
  assumes "createOrder env u n dto db = (db', Inr (r, rows))"
  shows "(\<forall>k. stockOf db' k = map_option (\<lambda>s. s - requested (items dto) k) (stockOf db k))
         \<and> (\<forall>x \<in> set (items dto). line_ok db x)
         \<and> (\<forall>x \<in> set (items dto). \<exists>s. stockOf db' (bookId x) = Some s \<and> 0 \<le> s)
         \<and> rows = map (stored n) (map (priced env db) (items dto))
         \<and> r = \<lparr>oid = n, userId = u, totalPrice = running_total env 0 (map (priced env db) (items dto)),
                 orderStatus = PENDING, paymentStatus = PaymentStatus_PENDING\<rparr>
         \<and> orders db' = orders db @ [r] \<and> orderItems db' = orderItems db @ rows
         \<and> users db' = users db \<and> map bid (books db') = map bid (books db)
         \<and> order_findUnique db n = None"
proof -
  let ?its = "items dto"
  let ?ps = "map (priced env db) ?its"
  let ?tot = "running_total env 0 ?ps"
  have ne: "?its \<noteq> []" using assms by (auto simp: createOrder_def split: if_splits)
  have ok: "\<forall>x \<in> set ?its. line_ok db x"
  proof (rule ccontr)
    assume "\<not> (\<forall>x \<in> set ?its. line_ok db x)"
    from validate_fail[OF this, where acc = "[]" and tot = 0 and env = env] assms ne show False by (auto simp: createOrder_def)
  qed
  from assms have tx: "transaction (createOrder_tx u n ?ps ?tot) db = (db', Inr (r, rows))"
    unfolding createOrder_all_ok[OF ne ok] .
  obtain db1 res where d: "createOrder_decrementAll ?ps db = (db1, res)"
    by (cases "createOrder_decrementAll ?ps db")
  from tx d have res: "res = Inr ()"
    by (cases res) (auto simp: transaction_def createOrder_tx_def)
  from tx d res have oc: "order_create n u ?tot ?ps db1 = (db', Inr (r, rows))"
    by (auto simp: transaction_def createOrder_tx_def split: prod.splits sum.splits)
  note ocr = order_create_result[OF oc]
  from d res have d': "createOrder_decrementAll ?ps db = (db1, Inr ())" by simp
  note dr = decrementAll_result[OF d']
  note db = decrementAll_bids[OF d']
  have bq: "\<And>it. bookId (priced env db it) = bookId it"
    by (simp add: priced_def split: option.splits)
  have dbeq: "db' = db1\<lparr>orders := orders db1 @ [r], orderItems := orderItems db1 @ rows\<rparr>"
    using ocr by simp
  have st: "\<forall>k. stockOf db' k = map_option (\<lambda>s. s - requested ?its k) (stockOf db k)"
    unfolding dbeq using dr by (simp add: requested_priced)
  have nn: "\<forall>x \<in> set ?its. \<exists>s. stockOf db' (bookId x) = Some s \<and> 0 \<le> s"
  proof -
    have "\<forall>it \<in> set ?ps. \<exists>s. stockOf db1 (bookId it) = Some s \<and> 0 \<le> s" using dr by blast
    then show ?thesis unfolding dbeq using bq by simp
  qed
  have fr: "orders db' = orders db @ [r]" "orderItems db' = orderItems db @ rows"
    "users db' = users db" "map bid (books db') = map bid (books db)"
    unfolding dbeq using dr db by simp_all
  have fresh: "order_findUnique db n = None"
    using ocr dr by (simp add: order_findUnique_def)
  show ?thesis
    using st ok nn fr fresh ocr by simp
qed

lemma consistent_createOrder:
  assumes "consistent db"
  shows "consistent (fst (createOrder env u n dto db))"
proof (cases "createOrder env u n dto db")
  case (Pair db' res)
  show ?thesis
  proof (cases res)
    case (Inl e)
    with Pair have "db' = db" by (auto dest: createOrder_Inl_unchanged)
    with Pair assms show ?thesis by simp
  next
    case (Inr rr)
    obtain r rows where rr: "rr = (r, rows)" by (cases rr)
    from Pair Inr rr have c: "createOrder env u n dto db = (db', Inr (r, rows))" by simp
    note cr = createOrder_result[OF c]
    from assms have a: "distinct (map bid (books db))"
      "\<forall>b \<in> set (books db). 0 \<le> stockQuantity b"
      "\<forall>it \<in> set (orderItems db). 0 < quantity it \<and> bookId it \<in> bid ` set (books db)
           \<and> orderId it \<in> oid ` set (orders db)"
      by (simp_all add: consistent_alt)
    have bids: "map bid (books db') = map bid (books db)" using cr by simp
    then have bset: "bid ` set (books db') = bid ` set (books db)" by (metis list.set_map)
    have d': "distinct (map bid (books db'))" using a(1) bids by simp
    have old: "\<forall>k s. stockOf db k = Some s \<longrightarrow> 0 \<le> s"
      using a(2) stock_rows_iff[OF a(1), of "\<lambda>s. 0 \<le> s"] by simp
    have "\<forall>k s. stockOf db' k = Some s \<longrightarrow> 0 \<le> s"
    proof (intro allI impI)
      fix k s assume s: "stockOf db' k = Some s"
      show "0 \<le> s"
      proof (cases "k \<in> bookId ` set (items dto)")
        case True
        then obtain x where "x \<in> set (items dto)" "k = bookId x" by auto
        with cr s show ?thesis by auto
      next
        case False
        then have "filter (\<lambda>x. bookId x = k) (items dto) = []"
          unfolding filter_empty_conv by (metis imageI)
        then have "requested (items dto) k = 0" by (simp add: requested_def)
        with cr s have "stockOf db k = Some s" by auto
        with old show ?thesis by blast
      qed
    qed
    then have nn: "\<forall>b \<in> set (books db'). 0 \<le> stockQuantity b"
      using stock_rows_iff[OF d', of "\<lambda>s. 0 \<le> s"] by simp
    have lines: "\<forall>x \<in> set (items dto). 0 < quantity x \<and> bookId x \<in> bid ` set (books db)"
    proof
      fix x assume "x \<in> set (items dto)"
      with cr have "line_ok db x" by blast
      then obtain b where "book_findUnique db (bookId x) = Some b" "0 < quantity x"
        by (auto simp: line_ok_def split: option.splits)
      then show "0 < quantity x \<and> bookId x \<in> bid ` set (books db)"
        using book_findUnique_None_iff[of db "bookId x"] by auto
    qed
    have bq: "\<And>it. bookId (stored n (priced env db it)) = bookId it
        \<and> quantity (stored n (priced env db it)) = quantity it \<and> orderId (stored n (priced env db it)) = n"
      by (simp add: stored_def priced_def split: option.splits)
    have oidr: "oid r = n" using cr by simp
    have its: "\<forall>it \<in> set (orderItems db'). 0 < quantity it \<and> bookId it \<in> bid ` set (books db')
           \<and> orderId it \<in> oid ` set (orders db')"
    proof
      fix it assume "it \<in> set (orderItems db')"
      with cr have "it \<in> set (orderItems db) \<or> it \<in> set rows" by auto
      then show "0 < quantity it \<and> bookId it \<in> bid ` set (books db')
           \<and> orderId it \<in> oid ` set (orders db')"
      proof
        assume "it \<in> set (orderItems db)"
        with a(3) bset cr show ?thesis by auto
      next
        assume "it \<in> set rows"
        with cr obtain x where x: "x \<in> set (items dto)" "it = stored n (priced env db x)" by auto
        with lines bq[of x] bset oidr cr show ?thesis by auto
      qed
    qed
    have "consistent db'" using d' nn its by (simp add: consistent_alt)
    with Pair show ?thesis by simp
  qed
qed

lemma requested_stored: "requested (map (stored n) xs) k = requested xs k"
  by (induction xs) (auto simp: requested_Cons stored_def)

lemma place_then_cancel:
  assumes "consistent dbp" and "createOrder env u n dto dbp = (db, Inr (r, rows))"
  shows "\<exists>db' r'. cancelOrder n u db = (db', Inr (r', rows))
           \<and> (\<forall>k. stockOf db' k = stockOf dbp k)
           \<and> order_findUnique db' n = Some r' \<and> orderStatus r' = CANCELLED"
proof -
  note cr = createOrder_result[OF assms(2)]
  have cons: "consistent db" using consistent_createOrder[OF assms(1), where u = u and n = n and dto = dto and env = env] assms(2) by simp
  have r: "oid r = n" "userId r = u" "orderStatus r = PENDING" using cr by simp_all
  have fresh: "n \<notin> oid ` set (orders dbp)"
    using cr by (simp add: order_findUnique_None_iff)
  have fr: "order_findUnique db n = Some r"
    using cr r(1) by (simp add: order_findUnique_def find_append_None)
  have old: "filter (\<lambda>it. orderId it = n) (orderItems dbp) = []"
    unfolding filter_empty_conv using assms(1) fresh by (auto simp: consistent_alt)
  have new: "filter (\<lambda>it. orderId it = n) rows = rows"
    using cr by (simp add: stored_def comp_def)

  have fm: "orderItem_findMany db n = rows"
    using cr old new by (simp add: orderItem_findMany_def)
  have rows: "rows = map (stored n) (map (priced env dbp) (items dto))" using cr by blast
  have rq: "\<And>k. requested rows k = requested (items dto) k"
    unfolding rows by (simp only: requested_stored requested_priced)
  from cancelOrder_pending[OF cons fr r(2,3)] obtain db' r' where
    c: "cancelOrder n u db = (db', Inr (r', orderItem_findMany db n))"
       "\<forall>b. stockOf db' b = map_option (\<lambda>s. s + requested (orderItem_findMany db n) b) (stockOf db b)"
       "order_findUnique db' n = Some r'" "orderStatus r' = CANCELLED"
    by blast
  have "\<forall>k. stockOf db' k = stockOf dbp k"
  proof
    fix k
    have "stockOf db' k = map_option (\<lambda>s. s + requested (items dto) k) (stockOf db k)"
      using c(2) fm rq by simp
    also have "stockOf db k = map_option (\<lambda>s. s - requested (items dto) k) (stockOf dbp k)"
      using cr by simp
    finally show "stockOf db' k = stockOf dbp k"
      by (cases "stockOf dbp k") simp_all
  qed
  with c fm show ?thesis by auto
qed

text \<open>
  Claim C6. In a consistent store (one as the requests below keep it), take an order that
  is PENDING and the user who owns it. \<^verbatim>\<open>cancelOrder\<close> succeeds: the stock of every book
  goes up by what the order's lines hold of it, the order becomes CANCELLED and keeps its
  owner, total and payment status, and the lines stay. A second \<^verbatim>\<open>cancelOrder\<close> on the
  result fails with ``Only pending orders can be cancelled'' and returns the same store.
  And when the order has just been placed by \<^verbatim>\<open>createOrder\<close>, cancelling it gives every
  book the stock it had before the order.
\<close>

theorem cancelOrder_restores:
  "(consistent db \<and> order_findUnique db k = Some r \<and> userId r = u \<and> orderStatus r = PENDING
      \<longrightarrow> (\<exists>db' r'.
             cancelOrder k u db = (db', Inr (r', orderItem_findMany db k))
             \<and> (\<forall>b. stockOf db' b
                    = map_option (\<lambda>s. s + requested (orderItem_findMany db k) b) (stockOf db b))
             \<and> order_findUnique db' k = Some r' \<and> orderStatus r' = CANCELLED
             \<and> userId r' = userId r \<and> totalPrice r' = totalPrice r
             \<and> paymentStatus r' = paymentStatus r
             \<and> orderItems db' = orderItems db
             \<and> cancelOrder k u db' = (db', Inl (Error ''Only pending orders can be cancelled''))))
   \<and> (consistent dbp \<and> createOrder env u k dto dbp = (db, Inr (r, rows))
      \<longrightarrow> (\<exists>db' r'.
             cancelOrder k u db = (db', Inr (r', rows))
             \<and> (\<forall>b. stockOf db' b = stockOf dbp b)
             \<and> order_findUnique db' k = Some r' \<and> orderStatus r' = CANCELLED))"
proof (intro conjI impI)
  assume "consistent db \<and> order_findUnique db k = Some r \<and> userId r = u \<and> orderStatus r = PENDING"
  then show "\<exists>db' r'.
             cancelOrder k u db = (db', Inr (r', orderItem_findMany db k))
             \<and> (\<forall>b. stockOf db' b
                    = map_option (\<lambda>s. s + requested (orderItem_findMany db k) b) (stockOf db b))
             \<and> order_findUnique db' k = Some r' \<and> orderStatus r' = CANCELLED
             \<and> userId r' = userId r \<and> totalPrice r' = totalPrice r
             \<and> paymentStatus r' = paymentStatus r
             \<and> orderItems db' = orderItems db
             \<and> cancelOrder k u db' = (db', Inl (Error ''Only pending orders can be cancelled''))"
    using cancelOrder_pending[of db k r u] by blast
next
  assume "consistent dbp \<and> createOrder env u k dto dbp = (db, Inr (r, rows))"
  then show "\<exists>db' r'.
             cancelOrder k u db = (db', Inr (r', rows))
             \<and> (\<forall>b. stockOf db' b = stockOf dbp b)
             \<and> order_findUnique db' k = Some r' \<and> orderStatus r' = CANCELLED"
    using place_then_cancel[where dbp = dbp and u = u and n = k and dto = dto and db = db and r = r and rows = rows and env = env] by blast
qed

lemma consistent_db0: "consistent db0"
  by (simp add: consistent_def book_findUnique_def order_findUnique_def example_defs)

lemma consistent_db1: "consistent db1"
  by (simp add: consistent_def book_findUnique_def order_findUnique_def example1_defs)

text \<open>Alice's order took A from 5 to 2 and B from 2 to 0; cancelling it gives 5 and 2 again.\<close>

theorem cancelOrder_restores_witness:
  "consistent db0 \<and> createOrder env0 ''u1'' ''o1'' dtoAB db0 = (db1, Inr (orderO1, itemsO1))
   \<and> stockOf db0 ''A'' = Some 5 \<and> stockOf db1 ''A'' = Some 2
   \<and> (\<exists>db' r'. cancelOrder ''o1'' ''u1'' db1 = (db', Inr (r', itemsO1))
         \<and> stockOf db' ''A'' = Some 5 \<and> stockOf db' ''B'' = Some 2
         \<and> orderStatus r' = CANCELLED
         \<and> cancelOrder ''o1'' ''u1'' db' = (db', Inl (Error ''Only pending orders can be cancelled'')))"
proof -
  have c: "createOrder env0 ''u1'' ''o1'' dtoAB db0 = (db1, Inr (orderO1, itemsO1))"
    by (simp add: order_defs store_defs dtoAB_def example_defs example1_defs)
  have s: "stockOf db0 ''A'' = Some 5" "stockOf db0 ''B'' = Some 2" "stockOf db1 ''A'' = Some 2"
    by (simp_all add: store_defs example_defs example1_defs)
  have f: "order_findUnique db1 ''o1'' = Some orderO1" "userId orderO1 = ''u1''"
    "orderStatus orderO1 = PENDING" "orderItem_findMany db1 ''o1'' = itemsO1"
    by (simp_all add: order_findUnique_def orderItem_findMany_def example1_defs)
  note th = cancelOrder_restores[where db = db1 and k = "''o1''" and r = orderO1 and u = "''u1''"
      and dbp = db0 and dto = dtoAB and rows = itemsO1 and env = env0]
  from th[THEN conjunct1] consistent_db1 f obtain db' r' where
    1: "cancelOrder ''o1'' ''u1'' db1 = (db', Inr (r', itemsO1))"
       "orderStatus r' = CANCELLED"
       "cancelOrder ''o1'' ''u1'' db' = (db', Inl (Error ''Only pending orders can be cancelled''))"
    by auto
  from th[THEN conjunct2] consistent_db0 c obtain db'' r'' where
    2: "cancelOrder ''o1'' ''u1'' db1 = (db'', Inr (r'', itemsO1))"
       "\<forall>b. stockOf db'' b = stockOf db0 b"
    by auto
  from 1(1) 2(1) have "db'' = db'" by simp
  with 2(2) s have "stockOf db' ''A'' = Some 5" "stockOf db' ''B'' = Some 2" by simp_all
  with 1 have "\<exists>db' r'. cancelOrder ''o1'' ''u1'' db1 = (db', Inr (r', itemsO1))
         \<and> stockOf db' ''A'' = Some 5 \<and> stockOf db' ''B'' = Some 2
         \<and> orderStatus r' = CANCELLED
         \<and> cancelOrder ''o1'' ''u1'' db' = (db', Inl (Error ''Only pending orders can be cancelled''))"
    by blast
  then show ?thesis using consistent_db0 c s by simp
qed


section \<open>Every request keeps the store consistent\<close>

lemma order_update_frames:
  "(\<And>r. oid (f r) = oid r) \<Longrightarrow> order_update k f db = (db', res) \<Longrightarrow>
     books db' = books db \<and> map oid (orders db') = map oid (orders db)
     \<and> orderItems db' = orderItems db \<and> users db' = users db"
  by (auto simp: order_update_def comp_def split: option.splits)

lemma consistent_frames:
  assumes "consistent db"
    and "books db' = books db" and "map oid (orders db') = map oid (orders db)"
    and "orderItems db' = orderItems db"
  shows "consistent db'"
proof -
  from assms(3) have "oid ` set (orders db') = oid ` set (orders db)" by (metis list.set_map)
  with assms(1,2,4) show ?thesis by (simp add: consistent_alt)
qed

lemma consistent_updateOrderStatus:
  assumes "consistent db"
  shows "consistent (fst (updateOrderStatus k dto db))"
proof (cases "order_findUnique db k")
  case None
  with assms show ?thesis by (simp add: updateOrderStatus_def)
next
  case (Some r)
  obtain db' res where u: "order_update k (\<lambda>r. r\<lparr>orderStatus := status dto\<rparr>) db = (db', res)"
    by (cases "order_update k (\<lambda>r. r\<lparr>orderStatus := status dto\<rparr>) db")
  from order_update_frames[OF _ u] consistent_frames[OF assms, of db'] have "consistent db'" by simp
  with Some u show ?thesis by (simp add: updateOrderStatus_def)
qed

lemma consistent_cancelOrder:
  assumes "consistent db"
  shows "consistent (fst (cancelOrder k u db))"
proof (cases "\<exists>r. order_findUnique db k = Some r \<and> userId r = u \<and> orderStatus r = PENDING")
  case False
  then have "fst (cancelOrder k u db) = db"
    by (auto simp: cancelOrder_def split: option.splits)
  with assms show ?thesis by simp
next
  case True
  then obtain r where r: "order_findUnique db k = Some r" "userId r = u" "orderStatus r = PENDING"
    by blast
  let ?its = "orderItem_findMany db k"
  from cancelOrder_pending[OF assms r] obtain db' r' where
    c: "cancelOrder k u db = (db', Inr (r', ?its))"
       "\<forall>b. stockOf db' b = map_option (\<lambda>s. s + requested ?its b) (stockOf db b)"
       "orderItems db' = orderItems db"
    by blast
  from c(1) r have tx: "cancelOrder_tx k db = (db', Inr (r', ?its))"
    by (auto simp: cancelOrder_def transaction_def split: prod.splits sum.splits)
  obtain db1 r1 where d: "cancelOrder_restoreAll ?its db = (db1, r1)"
    by (cases "cancelOrder_restoreAll ?its db")
  from tx d have r1: "r1 = Inr ()" by (cases r1) (auto simp: cancelOrder_tx_def)
  from tx d r1 have ou: "order_update k (\<lambda>r. r\<lparr>orderStatus := CANCELLED\<rparr>) db1 = (db', Inr (r', ?its))"
    by (simp add: cancelOrder_tx_def)
  from restoreAll_bids[OF d] have b1: "map bid (books db1) = map bid (books db)" .
  from d r1 have d': "cancelOrder_restoreAll ?its db = (db1, Inr ())" by simp
  from restoreAll_result[OF d'] have f1: "orders db1 = orders db" by simp
  from order_update_frames[OF _ ou] have f2: "books db' = books db1"
      "map oid (orders db') = map oid (orders db1)" by simp_all
  from assms have a: "distinct (map bid (books db))"
      "\<forall>b \<in> set (books db). 0 \<le> stockQuantity b"
      "\<forall>it \<in> set (orderItems db). 0 < quantity it \<and> bookId it \<in> bid ` set (books db)
           \<and> orderId it \<in> oid ` set (orders db)"
    by (simp_all add: consistent_alt)
  have bids: "map bid (books db') = map bid (books db)" using b1 f2 by simp
  then have bset: "bid ` set (books db') = bid ` set (books db)" by (metis list.set_map)
  have oset: "oid ` set (orders db') = oid ` set (orders db)" using f1 f2 by (metis list.set_map)
  have d2: "distinct (map bid (books db'))" using a(1) bids by simp
  have pos: "\<forall>x \<in> set ?its. 0 < quantity x" using a(3) by (simp add: orderItem_findMany_def)
  have old: "\<forall>k s. stockOf db k = Some s \<longrightarrow> 0 \<le> s"
    using a(2) stock_rows_iff[OF a(1), of "\<lambda>s. 0 \<le> s"] by simp
  have "\<forall>b s. stockOf db' b = Some s \<longrightarrow> 0 \<le> s"
  proof (intro allI impI)
    fix b s assume s: "stockOf db' b = Some s"
    with c(2) obtain s0 where s0: "stockOf db b = Some s0" "s = s0 + requested ?its b" by auto
    with old requested_nonneg[OF pos, of b] show "0 \<le> s" by fastforce
  qed
  then have nn: "\<forall>b \<in> set (books db'). 0 \<le> stockQuantity b"
    using stock_rows_iff[OF d2, of "\<lambda>s. 0 \<le> s"] by simp
  have "consistent db'" using d2 nn a(3) c(3) bset oset by (simp add: consistent_alt)
  with c(1) show ?thesis by simp
qed

lemma consistent_deleteBook:
  assumes "consistent db"
  shows "consistent (fst (deleteBook k db))"
proof (cases "book_findUnique db k \<noteq> None \<and> orderItem_count db k = 0")
  case False
  then have "fst (deleteBook k db) = db"
    by (auto simp: deleteBook_def split: option.splits)
  with assms show ?thesis by simp
next
  case True
  then have del: "fst (deleteBook k db) = db\<lparr>books := filter (\<lambda>b. bid b \<noteq> k) (books db)\<rparr>"
    by (auto simp: deleteBook_def book_delete_def split: option.splits)
  from True have none: "\<forall>it \<in> set (orderItems db). bookId it \<noteq> k"
    by (simp add: orderItem_count_def filter_empty_conv)
  from assms have a: "distinct (map bid (books db))"
      "\<forall>b \<in> set (books db). 0 \<le> stockQuantity b"
      "\<forall>it \<in> set (orderItems db). 0 < quantity it \<and> bookId it \<in> bid ` set (books db)
           \<and> orderId it \<in> oid ` set (orders db)"
    by (simp_all add: consistent_alt)
  have "\<forall>it \<in> set (orderItems db). bookId it \<in> bid ` set (filter (\<lambda>b. bid b \<noteq> k) (books db))"
    using a(3) none by auto
  then show ?thesis unfolding del using a by (simp add: consistent_alt distinct_map_filter)
qed

lemma consistent_createBook:
  assumes "consistent db" and "0 \<le> stockQuantity dto"
  shows "consistent (fst (createBook n dto db))"
proof (cases "book_findUnique_isbn db (isbn dto) = None \<and> book_findUnique db n = None")
  case False
  then have "fst (createBook n dto db) = db"
    by (auto simp: createBook_def book_create_def split: option.splits)
  with assms show ?thesis by simp
next
  case True
  then have n: "n \<notin> bid ` set (books db)" by (simp add: book_findUnique_None_iff)
  from True have cr: "fst (createBook n dto db)
      = db\<lparr>books := books db @ [\<lparr>title = title dto, authors = authors dto, genre = genre dto,
             isbn = isbn dto, price = price dto, description = description dto,
             stockQuantity = stockQuantity dto, imageUrl = imageUrl dto, bid = n\<rparr>]\<rparr>"
    by (simp add: createBook_def book_create_def Let_def)
  show ?thesis unfolding cr using assms n by (auto simp: consistent_alt)
qed

lemma bid_updateData [simp]: "bid (updateData dto b) = bid b"
  by (simp add: updateData_def)

lemma consistent_updateBook:
  assumes "consistent db" and "\<forall>v. upd_stockQuantity dto = Some v \<longrightarrow> 0 \<le> v"
  shows "consistent (fst (updateBook k dto db))"
proof (cases "updateBook k dto db")
  case (Pair db' res)
  show ?thesis
  proof (cases "db' = db")
    case True
    with Pair assms show ?thesis by simp
  next
    case False
    with Pair have db': "db' = db\<lparr>books := map (\<lambda>b. if bid b = k then updateData dto b else b) (books db)\<rparr>"
      by (auto simp: updateBook_def book_update_data_def split: option.splits if_splits)
    have st: "\<And>b. 0 \<le> stockQuantity b \<Longrightarrow> 0 \<le> stockQuantity (updateData dto b)"
      using assms(2) by (auto simp: updateData_def split: option.splits)
    have bids: "map bid (books db') = map bid (books db)"
      unfolding db' by (simp add: comp_def)
    then have bset: "bid ` set (books db') = bid ` set (books db)" by (metis list.set_map)
    from assms(1) have a: "distinct (map bid (books db))"
      "\<forall>b \<in> set (books db). 0 \<le> stockQuantity b"
      "\<forall>it \<in> set (orderItems db). 0 < quantity it \<and> bookId it \<in> bid ` set (books db)
           \<and> orderId it \<in> oid ` set (orders db)"
      by (simp_all add: consistent_alt)
    have nn: "\<forall>b \<in> set (books db'). 0 \<le> stockQuantity b"
      unfolding db' using a(2) st by auto
    have oi: "orderItems db' = orderItems db" "orders db' = orders db" unfolding db' by simp_all
    have "consistent db'" using a bids bset nn oi by (simp add: consistent_alt)
    with Pair show ?thesis by simp
  qed
qed

lemma consistent_registerUser:
  assumes "consistent db"
  shows "consistent (fst (registerUser env n dto db))"
proof (cases "registerUser env n dto db")
  case (Pair db' res)
  from registerUser_effect[OF Pair] have "books db' = books db \<and> orders db' = orders db
      \<and> orderItems db' = orderItems db"
    by (cases res) auto
  with consistent_frames[OF assms, of db'] Pair show ?thesis by simp
qed

lemma consistent_result:
  "consistent (fst p) \<Longrightarrow> p = (db', res) \<Longrightarrow> consistent db'"
  by simp

lemma consistent_register_POST:
  assumes "consistent db"
  shows "consistent (fst (register_POST env body n db))"
  using assms consistent_result[OF consistent_registerUser[OF assms, of env n]]
  by (auto simp: register_POST_def Let_def split: prod.splits sum.splits)

lemma consistent_books_POST:
  assumes "consistent db"
  shows "consistent (fst (books_POST user body n db))"
proof (cases "body_price body = NaN \<or> body_stockQuantity body = NaN
     \<or> (case body_stockQuantity body of Val s \<Rightarrow> s < 0 | _ \<Rightarrow> False)")
  case True
  then have "fst (books_POST user body n db) = db"
    by (auto simp: books_POST_def Let_def split: option.splits prod.splits sum.splits)
  with assms show ?thesis by simp
next
  case False
  let ?dto = "\<lparr>title = body_title body, authors = the (body_authors body),
                genre = body_genre body, isbn = body_isbn body,
                price = field_value (body_price body) 0,
                description = body_description body,
                stockQuantity = field_value (body_stockQuantity body) 0,
                imageUrl = body_imageUrl body\<rparr>"
  from False have "0 \<le> stockQuantity ?dto"
    by (auto simp: field_value_def split: field.splits)
  from consistent_result[OF consistent_createBook[OF assms this, of n]] assms False
  show ?thesis
    by (auto simp: books_POST_def Let_def split: option.splits prod.splits sum.splits)
qed

lemma consistent_book_PUT:
  assumes "consistent db"
  shows "consistent (fst (book_PUT user k body db))"
proof (cases "put_price body = NaN \<or> put_stockQuantity body = NaN
     \<or> (case put_stockQuantity body of Val s \<Rightarrow> s < 0 | _ \<Rightarrow> False)")
  case True
  then have "fst (book_PUT user k body db) = db"
    by (auto simp: book_PUT_def Let_def split: option.splits prod.splits sum.splits)
  with assms show ?thesis by simp
next
  case False
  let ?dto = "\<lparr>upd_title = put_title body, upd_authors = put_authors body,
                upd_genre = put_genre body, upd_isbn = put_isbn body,
                upd_price = field_option (put_price body) 0,
                upd_description = put_description body,
                upd_stockQuantity = field_option (put_stockQuantity body) 0,
                upd_imageUrl = put_imageUrl body\<rparr>"
  from False have "\<forall>v. upd_stockQuantity ?dto = Some v \<longrightarrow> 0 \<le> v"
    by (auto simp: field_option_def split: field.splits)
  from consistent_result[OF consistent_updateBook[OF assms this, of k]] assms False
  show ?thesis
    by (auto simp: book_PUT_def Let_def split: option.splits prod.splits sum.splits)
qed

lemma consistent_book_DELETE:
  assumes "consistent db"
  shows "consistent (fst (book_DELETE user k db))"
  using assms consistent_result[OF consistent_deleteBook[OF assms, of k]]
  by (auto simp: book_DELETE_def Let_def split: option.splits prod.splits sum.splits)

lemma consistent_orders_POST:
  assumes "consistent db"
  shows "consistent (fst (orders_POST env user its n db))"
  using assms consistent_result[OF consistent_createOrder[OF assms]]
  by (auto simp: orders_POST_def Let_def split: option.splits prod.splits sum.splits)

lemma consistent_order_status_PUT:
  assumes "consistent db"
  shows "consistent (fst (order_status_PUT user k st db))"
  using assms consistent_result[OF consistent_updateOrderStatus[OF assms, of k]]
  by (auto simp: order_status_PUT_def Let_def split: option.splits prod.splits sum.splits)

lemma consistent_handle: "consistent db \<Longrightarrow> consistent (handle env req db)"
  by (cases req)
     (simp_all add: consistent_register_POST consistent_books_POST consistent_book_PUT
        consistent_book_DELETE consistent_orders_POST consistent_order_status_PUT
        consistent_cancelOrder)

lemma consistent_run: "consistent db \<Longrightarrow> consistent (run env reqs db)"
  by (induction reqs arbitrary: db) (simp_all add: consistent_handle)

lemma consistent_emptyDB: "consistent emptyDB"
  by (simp add: consistent_def emptyDB_def)


section \<open>Stock is never negative\<close>

lemma stock_nonneg_consistent: "consistent db \<Longrightarrow> \<forall>b \<in> set (books db). 0 \<le> stockQuantity b"
  by (simp add: consistent_def)

lemma books_register_POST: "books (fst (register_POST env body n db)) = books db"
proof -
  obtain db' res where rr: "registerUser env n
      \<lparr>name = body_name body, email = toLowerCase_trim env (body_email body), password = body_password body\<rparr> db
      = (db', res)" by (cases "registerUser env n
      \<lparr>name = body_name body, email = toLowerCase_trim env (body_email body), password = body_password body\<rparr> db")
  from registerUser_effect[OF rr] have "books db' = books db" by (cases res) auto
  with rr show ?thesis by (cases res) (auto simp: register_POST_def Let_def)
qed

lemma books_updateOrderStatus: "books (fst (updateOrderStatus k dto db)) = books db"
  by (auto simp: updateOrderStatus_def order_update_def split: option.splits)

lemma books_order_status_PUT: "books (fst (order_status_PUT user k st db)) = books db"
  using books_updateOrderStatus[of k _ db]
  by (auto simp: order_status_PUT_def Let_def split: option.splits prod.splits sum.splits)
     (metis fst_conv)+

lemma run_requests0:
  "map stockQuantity (books (run env0 requests0 db0)) = [43, 2]"
proof -
  have 1: "handle env0 (OrdersPost (Some customer) (Some (items dtoAB)) ''o1'') db0 = db1"
    by (simp add: orders_POST_def customer_def order_defs store_defs dtoAB_def
        example_defs example1_defs)
  have 2: "handle env0 (BookPut (Some admin) ''A'' putStock40) db1
      = db1\<lparr>books := [bookA\<lparr>stockQuantity := 40\<rparr>, bookB\<lparr>stockQuantity := 0\<rparr>]\<rparr>"
    by (simp add: book_PUT_def admin_def isAdmin_def putStock40_def field_option_def updateBook_def
        book_update_data_def updateData_def book_findUnique_isbn_def store_defs example1_defs)
  have 3: "handle env0 (CancelOrder ''o1'' ''u1'')
        (db1\<lparr>books := [bookA\<lparr>stockQuantity := 40\<rparr>, bookB\<lparr>stockQuantity := 0\<rparr>]\<rparr>)
      = db1\<lparr>books := [bookA\<lparr>stockQuantity := 43\<rparr>, bookB\<lparr>stockQuantity := 2\<rparr>],
             orders := [orderO1\<lparr>orderStatus := CANCELLED\<rparr>]\<rparr>"
    by (simp add: cancelOrder_def cancelOrder_tx_def transaction_def order_update_def
        order_findUnique_def orderItem_findMany_def store_defs example1_defs)
  show ?thesis
    unfolding requests0_def by (simp only: run.simps 1 2 3) (simp add: example1_defs)
qed

text \<open>
  Claim C3, as the code has it. Requests handled one after another keep every stock
  non-negative: each request takes a consistent store to a consistent store, so every
  store reached from a consistent one, and every store reached from the empty one, has
  no negative stock. Stock is written by order placement (decrements), by order
  cancellation (increments), and also directly by the admin routes that create and update
  books, which refuse a negative value before calling the service; registration and
  order status updates leave the books table as it is.
\<close>

theorem stock_nonnegative_reachable:
  "(consistent db \<longrightarrow>
      consistent (handle env req db) \<and> (\<forall>b \<in> set (books (handle env req db)). 0 \<le> stockQuantity b))
   \<and> (consistent db \<longrightarrow> (\<forall>b \<in> set (books (run env reqs db)). 0 \<le> stockQuantity b))
   \<and> (\<forall>b \<in> set (books (run env reqs emptyDB)). 0 \<le> stockQuantity b)
   \<and> books (handle env (Register body n) db) = books db
   \<and> books (handle env (OrderStatusPut user k st) db) = books db"
proof (intro conjI impI)
  assume c: "consistent db"
  show "consistent (handle env req db)" using c by (rule consistent_handle)
  then show "\<forall>b \<in> set (books (handle env req db)). 0 \<le> stockQuantity b"
    by (rule stock_nonneg_consistent)
next
  assume "consistent db"
  then have "consistent (run env reqs db)" by (rule consistent_run)
  then show "\<forall>b \<in> set (books (run env reqs db)). 0 \<le> stockQuantity b"
    by (rule stock_nonneg_consistent)
next
  have "consistent (run env reqs emptyDB)" using consistent_emptyDB by (rule consistent_run)
  then show "\<forall>b \<in> set (books (run env reqs emptyDB)). 0 \<le> stockQuantity b"
    by (rule stock_nonneg_consistent)
next
  show "books (handle env (Register body n) db) = books db" by (simp add: books_register_POST)
next
  show "books (handle env (OrderStatusPut user k st) db) = books db"
    by (simp add: books_order_status_PUT)
qed


text \<open>
  Alice orders 3 of A and 2 of B, the admin sets the stock of A to 40, Alice cancels:
  the stocks are 43 and 2.
\<close>

theorem stock_nonnegative_reachable_witness:
  "consistent db0
   \<and> map stockQuantity (books (run env0 requests0 db0)) = [43, 2]
   \<and> list_all (\<lambda>b. 0 \<le> stockQuantity b) (books (run env0 requests0 db0))
   \<and> list_all (\<lambda>b. 0 \<le> stockQuantity b) (books (run env0 requests0 emptyDB))"
proof -
  note th = stock_nonnegative_reachable[where env = env0 and reqs = requests0]
  from th[where db = db0, THEN conjunct2, THEN conjunct1] consistent_db0
  have 1: "list_all (\<lambda>b. 0 \<le> stockQuantity b) (books (run env0 requests0 db0))"
    by (simp add: list_all_iff)
  from th[where db = db0, THEN conjunct2, THEN conjunct2, THEN conjunct1]
  have 2: "list_all (\<lambda>b. 0 \<le> stockQuantity b) (books (run env0 requests0 emptyDB))"
    by (simp add: list_all_iff)
  show ?thesis using consistent_db0 run_requests0 1 2 by simp
qed

text \<open>
  The claim as the spec words it lets only the ledger's decrement and increment write
  stock. The admin's PUT writes 40 over the 5 of book A in one step; and
  \<^verbatim>\<open>updateBook\<close> itself, without the route's check, writes -7.
\<close>

theorem stock_only_ledger_counterexample:
  "stockOf db0 ''A'' = Some 5
   \<and> stockOf (fst (book_PUT (Some admin) ''A'' putStock40 db0)) ''A'' = Some 40
   \<and> stockOf (fst (updateBook ''A'' updStockNeg db0)) ''A'' = Some (- 7)"
  by (simp add: book_PUT_def admin_def isAdmin_def putStock40_def updStockNeg_def field_option_def
      updateBook_def book_update_data_def updateData_def book_findUnique_isbn_def store_defs
      example_defs)


section \<open>Deleting a book\<close>

lemma deleteBook_Inl_unchanged: "deleteBook k db = (db', Inl e) \<Longrightarrow> db' = db"
  by (auto simp: deleteBook_def book_delete_def split: option.splits if_splits)

lemma items_consistent:
  "consistent db \<Longrightarrow> \<forall>it \<in> set (orderItems db). book_findUnique db (bookId it) \<noteq> None"
  by (simp add: consistent_def)

text \<open>
  Claim C9. When some stored order line names the book, \<^verbatim>\<open>deleteBook\<close> fails and
  returns the store unchanged. When it succeeds no line named the book, the book's row is
  gone and the orders, lines and users are as before. So in every store reached from a
  consistent one, and from the empty one, every stored line names a stored book.
\<close>

theorem deleteBook_referenced:
  "(0 < orderItem_count db k \<longrightarrow> (\<exists>e. deleteBook k db = (db, Inl e)))
   \<and> (\<forall>db'. deleteBook k db = (db', Inr ()) \<longrightarrow>
         orderItem_count db k = 0
         \<and> books db' = filter (\<lambda>b. bid b \<noteq> k) (books db)
         \<and> orders db' = orders db \<and> orderItems db' = orderItems db \<and> users db' = users db)
   \<and> (consistent db \<longrightarrow>
         (\<forall>it \<in> set (orderItems (run env reqs db)).
             book_findUnique (run env reqs db) (bookId it) \<noteq> None))
   \<and> (\<forall>it \<in> set (orderItems (run env reqs emptyDB)).
         book_findUnique (run env reqs emptyDB) (bookId it) \<noteq> None)"
proof (intro conjI impI allI)
  assume "0 < orderItem_count db k"
  then show "\<exists>e. deleteBook k db = (db, Inl e)"
    by (auto simp: deleteBook_def split: option.splits)
next
  fix db' assume d: "deleteBook k db = (db', Inr ())"
  then show "orderItem_count db k = 0"
    by (auto simp: deleteBook_def split: option.splits if_splits)
  from d show "books db' = filter (\<lambda>b. bid b \<noteq> k) (books db)"
    by (auto simp: deleteBook_def book_delete_def split: option.splits if_splits)
  from d show "orders db' = orders db"
    by (auto simp: deleteBook_def book_delete_def split: option.splits if_splits)
  from d show "orderItems db' = orderItems db"
    by (auto simp: deleteBook_def book_delete_def split: option.splits if_splits)
  from d show "users db' = users db"
    by (auto simp: deleteBook_def book_delete_def split: option.splits if_splits)
next
  assume "consistent db"
  then have "consistent (run env reqs db)" by (rule consistent_run)
  then show "\<forall>it \<in> set (orderItems (run env reqs db)).
             book_findUnique (run env reqs db) (bookId it) \<noteq> None"
    by (rule items_consistent)
next
  have "consistent (run env reqs emptyDB)" using consistent_emptyDB by (rule consistent_run)
  then show "\<forall>it \<in> set (orderItems (run env reqs emptyDB)).
         book_findUnique (run env reqs emptyDB) (bookId it) \<noteq> None"
    by (rule items_consistent)
qed

text \<open>
  After Alice's order book A cannot be deleted; before it, it can. After the three
  requests above every line still finds its book.
\<close>

theorem deleteBook_referenced_witness:
  "orderItem_count db1 ''A'' = 1
   \<and> deleteBook ''A'' db1 = (db1, Inl (Error ''Cannot delete book that is referenced in orders''))
   \<and> orderItem_count db0 ''A'' = 0
   \<and> deleteBook ''A'' db0 = (db0\<lparr>books := [bookB]\<rparr>, Inr ())
   \<and> list_all (\<lambda>it. book_findUnique (run env0 requests0 db0) (bookId it) \<noteq> None)
        (orderItems (run env0 requests0 db0))"
proof -
  note th = deleteBook_referenced[where env = env0 and reqs = requests0]
  have c1: "orderItem_count db1 ''A'' = 1" "orderItem_count db0 ''A'' = 0"
    by (simp_all add: orderItem_count_def example_defs example1_defs)
  have e1: "deleteBook ''A'' db1 = (db1, Inl (Error ''Cannot delete book that is referenced in orders''))"
    by (simp add: deleteBook_def orderItem_count_def store_defs example1_defs)
  have e0: "deleteBook ''A'' db0 = (db0\<lparr>books := [bookB]\<rparr>, Inr ())"
    by (simp add: deleteBook_def book_delete_def orderItem_count_def store_defs example_defs)
  from th[where db = db1 and k = "''A''", THEN conjunct1] c1
  have 1: "\<exists>e. deleteBook ''A'' db1 = (db1, Inl e)" by simp
  from th[where db = db0 and k = "''A''", THEN conjunct2, THEN conjunct2, THEN conjunct1] consistent_db0
  have 2: "list_all (\<lambda>it. book_findUnique (run env0 requests0 db0) (bookId it) \<noteq> None)
        (orderItems (run env0 requests0 db0))"
    by (simp add: list_all_iff)
  show ?thesis using c1 e1 e0 1 2 by simp
qed


section \<open>Concurrent order placement\<close>

text \<open>Run on its own, the step by step call is \<^verbatim>\<open>createOrder\<close>.\<close>

lemma steps_settled:
  "settled pc \<Longrightarrow> createOrder_steps m env u n pc db = (db, pc)"
  by (induction m) (cases pc; simp)+

lemma steps_loop:
  "createOrder_steps (2 * length its + 1) env u n (createOrder_loop its acc tot) db
     = (case createOrder_validate env db its acc tot of
          Inl e \<Rightarrow> (db, Rejected e)
        | Inr (acc', tot') \<Rightarrow> createOrder_step env u n (AtTransaction acc' tot') db)"
proof (induction its arbitrary: acc tot)
  case Nil
  then show ?case by (simp add: createOrder_loop_def split: prod.splits)
next
  case (Cons item rest)
  have two: "2 * length (item # rest) + 1 = Suc (Suc (2 * length rest + 1))" by simp
  show ?case
    unfolding two
    using Cons.IH
    by (auto simp: createOrder_loop_def steps_settled Let_def getBookById_def checkStockAvailability_def
        split: option.splits sum.splits prod.splits)
qed

lemma steps_createOrder:
  "createOrder_steps (2 * length (items dto) + 1) env u n (createOrder_start dto) db
     = (case createOrder env u n dto db of
          (db', Inl e) \<Rightarrow> (db', Rejected e)
        | (db', Inr r) \<Rightarrow> (db', Resolved r))"
proof (cases "items dto = []")
  case True
  then show ?thesis
    by (simp add: createOrder_start_def createOrder_def steps_settled del: createOrder_steps.simps)
next
  case False
  have "createOrder_steps (2 * length (items dto) + 1) env u n (createOrder_start dto) db
      = (case createOrder_validate env db (items dto) [] 0 of
          Inl e \<Rightarrow> (db, Rejected e)
        | Inr (acc', tot') \<Rightarrow> createOrder_step env u n (AtTransaction acc' tot') db)"
    using False steps_loop[of "items dto" env u n "[]" 0 db] by (simp only: createOrder_start_def if_False)
  also have "\<dots> = (case createOrder env u n dto db of
          (db', Inl e) \<Rightarrow> (db', Rejected e)
        | (db', Inr r) \<Rightarrow> (db', Resolved r))"
    using False by (auto simp: createOrder_def split: sum.splits prod.splits)
  finally show ?thesis .
qed


















end
